theory Spec2Isabelle
  imports Complex_Main "HOL-Library.Sublist"
begin

section \<open>Python strings\<close>

text \<open>
  A Python \<open>str\<close> is modelled as a \<open>string\<close> (a list of 8-bit characters). The
  character classes below are those of Python 3 on ASCII text: \<open>str.strip()\<close> and
  \<open>str.isspace()\<close> for white space, the regular-expression classes \<open>\d\<close> and
  \<open>\w\<close> for digits and word characters. Characters above 127 belong to no class.
\<close>

definition is_space :: "char \<Rightarrow> bool" where
  "is_space c = (let n = (of_char c :: nat) in (9 \<le> n \<and> n \<le> 13) \<or> (28 \<le> n \<and> n \<le> 32))"

definition is_digit :: "char \<Rightarrow> bool" where
  "is_digit c = (let n = (of_char c :: nat) in 48 \<le> n \<and> n \<le> 57)"

definition is_word :: "char \<Rightarrow> bool" where
  "is_word c = (let n = (of_char c :: nat) in
     (48 \<le> n \<and> n \<le> 57) \<or> (65 \<le> n \<and> n \<le> 90) \<or> n = 95 \<or> (97 \<le> n \<and> n \<le> 122))"

definition digit_val :: "char \<Rightarrow> nat" where
  "digit_val c = of_char c - 48"

definition lower_char :: "char \<Rightarrow> char" where
  "lower_char c = (let n = (of_char c :: nat) in if 65 \<le> n \<and> n \<le> 90 then char_of (n + 32) else c)"

text \<open>\<open>s.strip()\<close>: leading and trailing white space removed.\<close>

definition strip :: "string \<Rightarrow> string" where
  "strip s = rev (dropWhile is_space (rev (dropWhile is_space s)))"

text \<open>\<open>s.lower()\<close> on ASCII text.\<close>

definition lower :: "string \<Rightarrow> string" where
  "lower s = map lower_char s"

section \<open>Python floats\<close>

text \<open>
  A Python \<open>float\<close> is an IEEE 754 binary64 value: a finite rational, an infinity or a
  NaN (the sign of zero is not observable through \<open>abs\<close> and \<open><\<close>, and is left out).
  The rounding of a rational to the nearest binary64 value (to an infinity on overflow) is
  the parameter \<open>rnd\<close> of everything that rounds: nothing below depends on how it rounds.
\<close>

datatype pyfloat = Finite rat | PosInf | NegInf | NaN

fun fsub :: "(rat \<Rightarrow> pyfloat) \<Rightarrow> pyfloat \<Rightarrow> pyfloat \<Rightarrow> pyfloat" where
  "fsub rnd NaN y = NaN"
| "fsub rnd x NaN = NaN"
| "fsub rnd PosInf PosInf = NaN"
| "fsub rnd NegInf NegInf = NaN"
| "fsub rnd PosInf y = PosInf"
| "fsub rnd NegInf y = NegInf"
| "fsub rnd (Finite a) PosInf = NegInf"
| "fsub rnd (Finite a) NegInf = PosInf"
| "fsub rnd (Finite a) (Finite b) = rnd (a - b)"

fun fabs :: "pyfloat \<Rightarrow> pyfloat" where
  "fabs (Finite a) = Finite \<bar>a\<bar>"
| "fabs PosInf = PosInf"
| "fabs NegInf = PosInf"
| "fabs NaN = NaN"

text \<open>\<open>x < y\<close> on floats: every comparison with a NaN is false.\<close>

fun flt :: "pyfloat \<Rightarrow> pyfloat \<Rightarrow> bool" where
  "flt NaN y = False"
| "flt x NaN = False"
| "flt (Finite a) (Finite b) = (a < b)"
| "flt x NegInf = False"
| "flt PosInf y = False"
| "flt NegInf y = True"
| "flt (Finite a) PosInf = True"

subsection \<open>The constructor \<open>float(str)\<close>\<close>

text \<open>
  The grammar of the language reference for the argument of \<open>float\<close>, on ASCII text:
  \<^verbatim>\<open>
  digitpart   ::= digit (["_"] digit)*
  number      ::= [digitpart] "." digitpart | digitpart ["."]
  exponent    ::= ("e" | "E") [sign] digitpart
  floatnumber ::= number [exponent]
  floatvalue  ::= [sign] (floatnumber | "inf" | "infinity" | "nan")
  \<close>
  with \<open>inf\<close>, \<open>infinity\<close> and \<open>nan\<close> in any case, and white space around the value
  ignored. A string outside the grammar raises \<open>ValueError\<close>: the result \<open>None\<close>.
\<close>

text \<open>The digits of \<open>(["_"] digit)*\<close> at the head of a string, and what follows them.\<close>

fun digits_rest :: "string \<Rightarrow> nat list \<times> string" where
  "digits_rest [] = ([], [])"
| "digits_rest (c # cs) =
     (if is_digit c then (let (ds, r) = digits_rest cs in (digit_val c # ds, r))
      else if c = CHR ''_'' \<and> cs \<noteq> [] \<and> is_digit (hd cs) then digits_rest cs
      else ([], c # cs))"

definition digitpart :: "string \<Rightarrow> (nat list \<times> string) option" where
  "digitpart s = (if s \<noteq> [] \<and> is_digit (hd s) then Some (digits_rest s) else None)"

text \<open>\<open>number\<close>: the digits before the point, the digits after it, and the rest.\<close>

definition number :: "string \<Rightarrow> (nat list \<times> nat list \<times> string) option" where
  "number s =
     (case digitpart s of
        Some (ip, r) \<Rightarrow>
          (if r \<noteq> [] \<and> hd r = CHR ''.'' then
             (case digitpart (tl r) of
                Some (fp, r') \<Rightarrow> Some (ip, fp, r')
              | None \<Rightarrow> Some (ip, [], tl r))
           else Some (ip, [], r))
      | None \<Rightarrow>
          (if s \<noteq> [] \<and> hd s = CHR ''.'' then
             (case digitpart (tl s) of
                Some (fp, r') \<Rightarrow> Some ([], fp, r')
              | None \<Rightarrow> None)
           else None))"

text \<open>An optional sign at the head of a string: whether it is a minus, and the rest.\<close>

definition sign_rest :: "string \<Rightarrow> bool \<times> string" where
  "sign_rest s =
     (if s \<noteq> [] \<and> hd s = CHR ''-'' then (True, tl s)
      else if s \<noteq> [] \<and> hd s = CHR ''+'' then (False, tl s)
      else (False, s))"

text \<open>\<open>[exponent]\<close> up to the end of the string: the exponent, 0 when there is none.\<close>

definition exponent :: "string \<Rightarrow> int option" where
  "exponent s =
     (if s = [] then Some 0
      else if hd s = CHR ''e'' \<or> hd s = CHR ''E'' then
        (let (neg, r) = sign_rest (tl s) in
         case digitpart r of
           Some (ds, []) \<Rightarrow> (let n = int (foldl (\<lambda>a d. 10 * a + d) 0 ds) in Some (if neg then - n else n))
         | _ \<Rightarrow> None)
      else None)"

definition pow10 :: "int \<Rightarrow> rat" where
  "pow10 e = (if 0 \<le> e then 10 ^ nat e else 1 / 10 ^ nat (- e))"

definition floatnumber :: "string \<Rightarrow> rat option" where
  "floatnumber s =
     (case number s of
        None \<Rightarrow> None
      | Some (ip, fp, r) \<Rightarrow>
          (case exponent r of
             None \<Rightarrow> None
           | Some e \<Rightarrow>
               Some (of_nat (foldl (\<lambda>a d. 10 * a + d) 0 (ip @ fp)) * pow10 (e - int (length fp)))))"

definition py_float :: "(rat \<Rightarrow> pyfloat) \<Rightarrow> string \<Rightarrow> pyfloat option" where
  "py_float rnd s =
     (let (neg, r) = sign_rest (strip s) in
      if lower r = ''inf'' \<or> lower r = ''infinity'' then Some (if neg then NegInf else PosInf)
      else if lower r = ''nan'' then Some NaN
      else (case floatnumber r of
              None \<Rightarrow> None
            | Some q \<Rightarrow> Some (rnd (if neg then - q else q))))"

section \<open>The output evaluator (evaluator.py)\<close>

text \<open>
  \<^verbatim>\<open>
  def evaluate_output(actual_output, expected_output):
      try:
          actual = float(actual_output.strip())
          expected = float(expected_output.strip())
          return abs(actual - expected) < 1e-6
      except ValueError:
          return actual_output.strip() == expected_output.strip()
  \<close>
  The two conversions run in order inside the \<open>try\<close>; a \<open>ValueError\<close> of either
  one leaves it for the handler. The literal \<open>1e-6\<close> is the rounding of \<open>1/10^6\<close>.
\<close>

definition evaluate_output :: "(rat \<Rightarrow> pyfloat) \<Rightarrow> string \<Rightarrow> string \<Rightarrow> bool" where
  "evaluate_output rnd actual_output expected_output =
     (case py_float rnd (strip actual_output) of
        None \<Rightarrow> strip actual_output = strip expected_output
      | Some actual \<Rightarrow>
          (case py_float rnd (strip expected_output) of
             None \<Rightarrow> strip actual_output = strip expected_output
           | Some expected \<Rightarrow> flt (fabs (fsub rnd actual expected)) (rnd (1 / 10 ^ 6))))"

section \<open>The environment\<close>

text \<open>
  Everything outside the program (the file system, child processes, the clock, the two
  code-writing collaborators) is an oracle. A session keeps the list of the calls it has
  made so far, oldest first; every oracle answers from that list and the arguments of the
  call, so two calls with the same arguments may answer differently. An exception of a call
  is the answer \<open>Inl\<close>. The type \<open>exn\<close> holds the subclasses of Python's \<open>Exception\<close>;
  \<open>KeyboardInterrupt\<close> and \<open>SystemExit\<close>, which are no subclasses of it, are not modelled.
  Console output (\<open>print\<close>) and the log file are left out.
\<close>

datatype exn = TimeoutExpired | FileNotFoundError | Exception string

record completed_process =
  returncode :: int
  stdout :: string
  stderr :: string

datatype event =
    NamedTemporaryFile string
  | SubprocessRun "string list" "string option" nat
  | PathExists string
  | OsRemove string
  | GenerateCode string string
  | DebugCode string string string
  | TimeTime

record env =
  named_temporary_file :: "event list \<Rightarrow> string \<Rightarrow> exn + string"
  subprocess_run :: "event list \<Rightarrow> string list \<Rightarrow> string option \<Rightarrow> nat \<Rightarrow> exn + completed_process"
  path_exists :: "event list \<Rightarrow> string \<Rightarrow> bool"
  os_remove :: "event list \<Rightarrow> string \<Rightarrow> exn + unit"
  generate_code :: "event list \<Rightarrow> string \<Rightarrow> string \<Rightarrow> string"
  debug_code :: "event list \<Rightarrow> string \<Rightarrow> string \<Rightarrow> string \<Rightarrow> string"
  time_time :: "event list \<Rightarrow> rat"

section \<open>The sandboxed executor (executor.py)\<close>

text \<open>
  \<^verbatim>\<open>
  def install_package(package_name):
      try:
          result = subprocess.run(["pip", "install", package_name],
                                  capture_output=True, text=True, timeout=30)
          if result.returncode == 0:
              return True
          else:
              return False
      except subprocess.TimeoutExpired:
          return False
      except Exception as e:
          return False
  \<close>
\<close>

definition install_timeout :: nat where
  "install_timeout = 30"

definition execution_timeout :: nat where
  "execution_timeout = 10"

definition install_package :: "env \<Rightarrow> string \<Rightarrow> event list \<Rightarrow> bool \<times> event list" where
  "install_package env package_name tr =
     (let tr1 = tr @ [SubprocessRun [''pip'', ''install'', package_name] None install_timeout] in
      case subprocess_run env tr [''pip'', ''install'', package_name] None install_timeout of
        Inr result \<Rightarrow> (if returncode result = 0 then (True, tr1) else (False, tr1))
      | Inl TimeoutExpired \<Rightarrow> (False, tr1)
      | Inl e \<Rightarrow> (False, tr1))"

text \<open>
  \<open>re.search(r"No module named ['\"]([^'\"]+)['\"]", stderr)\<close> and its group 1. At a
  position the pattern matches when the literal text and a quote are followed by a
  non-empty run of characters that are no quotes and then by a quote; the run is greedy,
  so it is the longest one. The search takes the leftmost position.
\<close>

definition is_quote :: "char \<Rightarrow> bool" where
  "is_quote c = (c = CHR 0x27 \<or> c = CHR 0x22)"

definition match_module :: "string \<Rightarrow> string option" where
  "match_module s =
     (if prefix ''No module named '' s then
        (let r = drop 16 s in
         if r \<noteq> [] \<and> is_quote (hd r) then
           (let name = takeWhile (\<lambda>c. \<not> is_quote c) (tl r);
                rest = dropWhile (\<lambda>c. \<not> is_quote c) (tl r)
            in if name \<noteq> [] \<and> rest \<noteq> [] then Some name else None)
         else None)
      else None)"

fun search_module :: "string \<Rightarrow> string option" where
  "search_module [] = None"
| "search_module (c # cs) =
     (case match_module (c # cs) of
        Some name \<Rightarrow> Some name
      | None \<Rightarrow> search_module cs)"

text \<open>
  The messages of the handlers. Their first characters are the UTF-8 bytes of U+23F0 (an
  alarm clock) and of U+274C (a cross mark).
\<close>

definition timeout_message :: string where
  "timeout_message = [CHR 0xE2, CHR 0x8F, CHR 0xB0] @ '' Code execution timed out (10 seconds limit)''"

definition interpreter_message :: string where
  "interpreter_message = [CHR 0xE2, CHR 0x9D, CHR 0x8C] @
     '' Python interpreter not found. Please ensure Python is installed and in PATH.''"

definition failed_message :: "string \<Rightarrow> string" where
  "failed_message msg = [CHR 0xE2, CHR 0x9D, CHR 0x8C] @ '' Execution failed: '' @ msg"

definition install_failed_message :: "string \<Rightarrow> string" where
  "install_failed_message missing_module =
     ''Failed to install required package '' @ [CHR 0x27] @ missing_module @ [CHR 0x27]"

text \<open>
  The body of the \<open>try\<close> of \<open>run_code\<close>: its result or the exception that leaves it,
  the variable \<open>temp_file\<close> (\<open>None\<close> until the file is written), and the calls made.
  \<^verbatim>\<open>
  with tempfile.NamedTemporaryFile(mode='w', suffix='.py', delete=False) as f:
      f.write(code)
      temp_file = f.name
  result = subprocess.run(['python', temp_file], input=input_data,
                          capture_output=True, text=True, timeout=10)
  stdout = result.stdout.strip()
  stderr = result.stderr.strip()
  if stderr and "ModuleNotFoundError" in stderr:
      module_match = re.search(r"No module named ['\"]([^'\"]+)['\"]", stderr)
      if module_match:
          missing_module = module_match.group(1)
          if install_package(missing_module):
              retry_result = subprocess.run(['python', temp_file], input=input_data,
                                            capture_output=True, text=True, timeout=10)
              return retry_result.stdout.strip(), retry_result.stderr.strip()
          else:
              return "", f"Failed to install required package '{missing_module}'"
  return stdout, stderr
  \<close>
\<close>

definition run_code_try ::
  "env \<Rightarrow> string \<Rightarrow> string \<Rightarrow> event list \<Rightarrow> (exn + string \<times> string) \<times> string option \<times> event list" where
  "run_code_try env code input_data tr =
     (let tr1 = tr @ [NamedTemporaryFile code] in
      case named_temporary_file env tr code of
        Inl e \<Rightarrow> (Inl e, None, tr1)
      | Inr temp_file \<Rightarrow>
          (let tr2 = tr1 @ [SubprocessRun [''python'', temp_file] (Some input_data) execution_timeout] in
           case subprocess_run env tr1 [''python'', temp_file] (Some input_data) execution_timeout of
             Inl e \<Rightarrow> (Inl e, Some temp_file, tr2)
           | Inr result \<Rightarrow>
               (let out = strip (stdout result); err = strip (stderr result) in
                if err \<noteq> [] \<and> sublist ''ModuleNotFoundError'' err then
                  (case search_module err of
                     Some missing_module \<Rightarrow>
                       (let (installed, tr3) = install_package env missing_module tr2 in
                        if installed then
                          (let tr4 = tr3 @ [SubprocessRun [''python'', temp_file] (Some input_data) execution_timeout] in
                           case subprocess_run env tr3 [''python'', temp_file] (Some input_data) execution_timeout of
                             Inl e \<Rightarrow> (Inl e, Some temp_file, tr4)
                           | Inr retry_result \<Rightarrow>
                               (Inr (strip (stdout retry_result), strip (stderr retry_result)), Some temp_file, tr4))
                        else (Inr ([], install_failed_message missing_module), Some temp_file, tr3))
                   | None \<Rightarrow> (Inr (out, err), Some temp_file, tr2))
                else (Inr (out, err), Some temp_file, tr2))))"

text \<open>
  The handlers, in the order of the source:
  \<^verbatim>\<open>
  except subprocess.TimeoutExpired:
      return "", "... Code execution timed out (10 seconds limit)"
  except FileNotFoundError:
      return "", "... Python interpreter not found. ..."
  except Exception as e:
      return "", f"... Execution failed: {str(e)}"
  \<close>
\<close>

fun run_code_except :: "exn \<Rightarrow> exn + string \<times> string" where
  "run_code_except TimeoutExpired = Inr ([], timeout_message)"
| "run_code_except FileNotFoundError = Inr ([], interpreter_message)"
| "run_code_except (Exception msg) = Inr ([], failed_message msg)"

text \<open>
  \<^verbatim>\<open>
  finally:
      if temp_file and os.path.exists(temp_file):
          try:
              os.remove(temp_file)
          except:
              pass
  \<close>
\<close>

definition run_code_finally :: "env \<Rightarrow> string option \<Rightarrow> event list \<Rightarrow> event list" where
  "run_code_finally env temp_file tr =
     (case temp_file of
        None \<Rightarrow> tr
      | Some f \<Rightarrow>
          (if f = [] then tr
           else if path_exists env tr f then tr @ [PathExists f, OsRemove f]
           else tr @ [PathExists f]))"

text \<open>
  \<open>run_code\<close>: the result \<open>Inl\<close> is an exception that reaches the caller.
\<close>

definition run_code :: "env \<Rightarrow> string \<Rightarrow> string \<Rightarrow> event list \<Rightarrow> (exn + string \<times> string) \<times> event list" where
  "run_code env code input_data tr =
     (let (r, temp_file, tr1) = run_code_try env code input_data tr;
          r' = (case r of Inr v \<Rightarrow> Inr v | Inl e \<Rightarrow> run_code_except e)
      in (r', run_code_finally env temp_file tr1))"

section \<open>The error normalizer (main.py)\<close>

text \<open>
  \<open>re.sub(pattern, repl, s)\<close> for a pattern that matches no empty string: the text is
  scanned from the left; where the pattern matches, the match is replaced and the scan
  goes on behind it; elsewhere the character is kept. The matcher \<open>m\<close> gives the length of
  the match of the pattern at the head of a string.
\<close>

fun re_sub :: "(string \<Rightarrow> nat option) \<Rightarrow> string \<Rightarrow> string \<Rightarrow> string" where
  "re_sub m repl [] = []"
| "re_sub m repl (c # cs) =
     (case m (c # cs) of
        Some n \<Rightarrow> repl @ re_sub m repl (drop (n - 1) cs)
      | None \<Rightarrow> c # re_sub m repl cs)"

text \<open>\<open>r'line \d+'\<close>: the digits are taken greedily.\<close>

definition match_line :: "string \<Rightarrow> nat option" where
  "match_line s =
     (if prefix ''line '' s \<and> takeWhile is_digit (drop 5 s) \<noteq> []
      then Some (5 + length (takeWhile is_digit (drop 5 s))) else None)"

text \<open>\<open>r'File "[^"]*"'\<close>: up to the next double quote, across lines.\<close>

definition dquote :: char where
  "dquote = CHR 0x22"

definition match_file :: "string \<Rightarrow> nat option" where
  "match_file s =
     (if prefix (''File '' @ [dquote]) s \<and> dquote \<in> set (drop 6 s)
      then Some (6 + length (takeWhile (\<lambda>c. c \<noteq> dquote) (drop 6 s)) + 1) else None)"

text \<open>
  \<open>r'tmp\w+\.py'\<close>: a point is no word character, so the word characters of a match
  are the longest run of them.
\<close>

definition match_tmp :: "string \<Rightarrow> nat option" where
  "match_tmp s =
     (if prefix ''tmp'' s then
        (let w = takeWhile is_word (drop 3 s) in
         if w \<noteq> [] \<and> prefix ''.py'' (drop (3 + length w) s) then Some (3 + length w + 3) else None)
      else None)"

text \<open>\<open>s.split('\n')\<close> and \<open>'\n'.join(lines)\<close>.\<close>

definition newline :: char where
  "newline = CHR 0x0A"

fun split_lines :: "string \<Rightarrow> string list" where
  "split_lines [] = [[]]"
| "split_lines (c # cs) =
     (if c = newline then [] # split_lines cs
      else (case split_lines cs of
              l # ls \<Rightarrow> (c # l) # ls
            | [] \<Rightarrow> [[c]]))"

fun join_lines :: "string list \<Rightarrow> string" where
  "join_lines [] = []"
| "join_lines [l] = l"
| "join_lines (l # ls) = l @ newline # join_lines ls"

text \<open>
  \<^verbatim>\<open>
  core_error = []
  for line in lines:
      if line.strip() and not line.startswith('  File '):
          core_error.append(line.strip())
  \<close>
\<close>

fun core_error :: "string list \<Rightarrow> string list" where
  "core_error [] = []"
| "core_error (line # lines) =
     (if strip line \<noteq> [] \<and> \<not> prefix ''  File '' line
      then strip line # core_error lines
      else core_error lines)"

text \<open>
  \<^verbatim>\<open>
  def normalize_error(error_message):
      if not error_message:
          return ""
      normalized = re.sub(r'line \d+', 'line X', error_message)
      normalized = re.sub(r'File "[^"]*"', 'File "X"', normalized)
      normalized = re.sub(r'tmp\w+\.py', 'tmpX.py', normalized)
      lines = normalized.split('\n')
      ...
      return '\n'.join(core_error)
  \<close>
\<close>

definition sub_line :: "string \<Rightarrow> string" where
  "sub_line s = re_sub match_line ''line X'' s"

definition sub_file :: "string \<Rightarrow> string" where
  "sub_file s = re_sub match_file (''File '' @ [dquote, CHR ''X'', dquote]) s"

definition sub_tmp :: "string \<Rightarrow> string" where
  "sub_tmp s = re_sub match_tmp ''tmpX.py'' s"

definition normalize_error :: "string \<Rightarrow> string" where
  "normalize_error error_message =
     (if error_message = [] then []
      else join_lines (core_error (split_lines (sub_tmp (sub_file (sub_line error_message))))))"

subsection \<open>Texts that the substitutions leave unchanged\<close>

text \<open>A property that holds at every position of a text, the end included.\<close>

primrec everywhere :: "('a list \<Rightarrow> bool) \<Rightarrow> 'a list \<Rightarrow> bool" where
  "everywhere Q [] = Q []"
| "everywhere Q (c # cs) = (Q (c # cs) \<and> everywhere Q cs)"

text \<open>
  Where the text \<open>File "\<close> stands, it is followed by \<open>X"\<close> or by no double quote at
  all: every match of the second pattern is its own replacement.
\<close>

definition file_ok :: "string \<Rightarrow> bool" where
  "file_ok x \<longleftrightarrow>
     (prefix (''File '' @ [dquote]) x \<longrightarrow>
        prefix (''File '' @ [dquote, CHR ''X'', dquote]) x \<or> dquote \<notin> set (drop 6 x))"

text \<open>Where the third pattern matches, the match is its own replacement.\<close>

definition tmp_ok :: "string \<Rightarrow> bool" where
  "tmp_ok x \<longleftrightarrow> (match_tmp x \<noteq> None \<longrightarrow> prefix ''tmpX.py'' x)"

section \<open>The retry orchestrator (main.py)\<close>

definition MAX_ATTEMPTS :: nat where
  "MAX_ATTEMPTS = 50"

definition MAX_EXECUTION_TIME :: rat where
  "MAX_EXECUTION_TIME = 300"

definition MAX_DUPLICATE_ERRORS :: nat where
  "MAX_DUPLICATE_ERRORS = 2"

text \<open>\<open>str(n)\<close> for a natural number, as the f-strings format the index of a test case.\<close>

fun str_nat :: "nat \<Rightarrow> string" where
  "str_nat n = (if n < 10 then [char_of (48 + n)] else str_nat (n div 10) @ [char_of (48 + n mod 10)])"

text \<open>
  The variables of \<open>solve_task\<close> that the loop reads and writes, and the calls made so far.
  The clock readings are rationals.
\<close>

record state =
  final_code :: "string option"
  feedback_summary :: string
  error_history :: "string \<rightharpoonup> nat"
  all_passed :: bool
  current_attempt_errors :: "string list"
  calls :: "event list"

text \<open>\<open>error_history.get(err, 0)\<close>.\<close>

definition history_get :: "(string \<rightharpoonup> nat) \<Rightarrow> string \<Rightarrow> nat" where
  "history_get h err = (case h err of Some n \<Rightarrow> n | None \<Rightarrow> 0)"

definition execution_error_feedback :: "nat \<Rightarrow> string \<Rightarrow> string" where
  "execution_error_feedback idx error =
     ''Test Case '' @ str_nat idx @ '': Execution Error:'' @ [newline] @ error @ [newline]"

definition mismatch_feedback :: "nat \<Rightarrow> string \<Rightarrow> string \<Rightarrow> string" where
  "mismatch_feedback idx expected_output output =
     ''Test Case '' @ str_nat idx @ '': Expected '' @ [CHR 0x27] @ expected_output @ [CHR 0x27] @
     '' but got '' @ [CHR 0x27] @ output @ [CHR 0x27] @ [newline]"

text \<open>
  The loop over the test cases; \<open>break\<close> is the end of the recursion.
  \<^verbatim>\<open>
  for idx, (input_data, expected_output) in enumerate(test_cases, 1):
      output, error = run_code(code, input_data)
      if error:
          normalized_error = normalize_error(error)
          current_attempt_errors.append(normalized_error)
          if normalized_error in error_history:
              error_history[normalized_error] += 1
          else:
              error_history[normalized_error] = 1
          feedback_summary += f"Test Case {idx}: Execution Error:\n{error}\n"
          all_passed = False
          break
      else:
          passed = evaluate_output(output, expected_output)
          if not passed:
              feedback_summary += f"Test Case {idx}: Expected '{expected_output}' but got '{output}'\n"
              all_passed = False
              break
  \<close>
\<close>

fun run_tests ::
  "env \<Rightarrow> (rat \<Rightarrow> pyfloat) \<Rightarrow> string \<Rightarrow> (string \<times> string) list \<Rightarrow> nat \<Rightarrow> state \<Rightarrow> exn + state" where
  "run_tests env rnd code [] idx st = Inr st"
| "run_tests env rnd code ((input_data, expected_output) # rest) idx st =
     (case run_code env code input_data (calls st) of
        (Inl e, tr) \<Rightarrow> Inl e
      | (Inr (output, error), tr) \<Rightarrow>
          (if error \<noteq> [] then
             (let normalized_error = normalize_error error in
              Inr (st\<lparr>current_attempt_errors := current_attempt_errors st @ [normalized_error],
                      error_history :=
                        (if normalized_error \<in> dom (error_history st)
                         then (error_history st)(normalized_error \<mapsto> the (error_history st normalized_error) + 1)
                         else (error_history st)(normalized_error \<mapsto> 1)),
                      feedback_summary := feedback_summary st @ execution_error_feedback idx error,
                      all_passed := False,
                      calls := tr\<rparr>))
           else if \<not> evaluate_output rnd output expected_output then
             Inr (st\<lparr>feedback_summary := feedback_summary st @ mismatch_feedback idx expected_output output,
                     all_passed := False,
                     calls := tr\<rparr>)
           else run_tests env rnd code rest (idx + 1) (st\<lparr>calls := tr\<rparr>)))"

text \<open>
  How a session ends: the \<open>break\<close> on success, the \<open>break\<close> on a repeated error, the
  \<open>break\<close> on the time limit, or the end of \<open>range(1, MAX_ATTEMPTS + 1)\<close>.
\<close>

datatype terminal = Success | Stuck | TimedOut | Exhausted

text \<open>
  \<^verbatim>\<open>
  repeated_errors = [err for err in current_attempt_errors
                     if error_history.get(err, 0) >= MAX_DUPLICATE_ERRORS]
  \<close>
\<close>

definition repeated_errors :: "state \<Rightarrow> string list" where
  "repeated_errors st =
     filter (\<lambda>err. history_get (error_history st) err \<ge> MAX_DUPLICATE_ERRORS) (current_attempt_errors st)"

text \<open>
  The loop over the attempts, from the list of the attempt numbers that are left.
  \<^verbatim>\<open>
  for attempt in range(1, MAX_ATTEMPTS + 1):
      elapsed_time = time.time() - start_time
      if elapsed_time > MAX_EXECUTION_TIME:
          break
      code = generate_code(task_description, "python") if attempt == 1 \
             else debug_code(task_description, feedback_summary, "python")
      all_passed = True
      feedback_summary = ""
      current_attempt_errors = []
      for idx, (input_data, expected_output) in enumerate(test_cases, 1):
          ...
      if current_attempt_errors:
          repeated_errors = [...]
          if repeated_errors:
              break
      if all_passed:
          final_code = code
          break
  \<close>
\<close>

definition next_code :: "env \<Rightarrow> string \<Rightarrow> nat \<Rightarrow> state \<Rightarrow> string \<times> state" where
  "next_code env task_description attempt st =
     (if attempt = 1
      then (generate_code env (calls st) task_description ''python'',
            st\<lparr>calls := calls st @ [GenerateCode task_description ''python'']\<rparr>)
      else (debug_code env (calls st) task_description (feedback_summary st) ''python'',
            st\<lparr>calls := calls st @ [DebugCode task_description (feedback_summary st) ''python'']\<rparr>))"

fun attempts ::
  "env \<Rightarrow> (rat \<Rightarrow> pyfloat) \<Rightarrow> string \<Rightarrow> (string \<times> string) list \<Rightarrow> rat \<Rightarrow> nat list \<Rightarrow> state \<Rightarrow>
   exn + terminal \<times> state" where
  "attempts env rnd task_description test_cases start_time [] st = Inr (Exhausted, st)"
| "attempts env rnd task_description test_cases start_time (attempt # rest) st =
     (let elapsed_time = time_time env (calls st) - start_time;
          st1 = st\<lparr>calls := calls st @ [TimeTime]\<rparr>
      in if elapsed_time > MAX_EXECUTION_TIME then Inr (TimedOut, st1)
         else
           (let (code, st2) = next_code env task_description attempt st1;
                st3 = st2\<lparr>all_passed := True, feedback_summary := [], current_attempt_errors := []\<rparr>
            in case run_tests env rnd code test_cases 1 st3 of
                 Inl e \<Rightarrow> Inl e
               | Inr st4 \<Rightarrow>
                   (if current_attempt_errors st4 \<noteq> [] \<and> repeated_errors st4 \<noteq> [] then Inr (Stuck, st4)
                    else if all_passed st4 then Inr (Success, st4\<lparr>final_code := Some code\<rparr>)
                    else attempts env rnd task_description test_cases start_time rest st4)))"

text \<open>
  \<open>solve_task\<close> up to the end of the loop. Before the first attempt \<open>final_code\<close> is
  \<open>None\<close>, \<open>feedback_summary\<close> is empty and \<open>error_history\<close> is the empty dictionary;
  \<open>all_passed\<close> and \<open>current_attempt_errors\<close> are set at the start of every attempt.
  The reports written after the loop are left out.
\<close>

definition initial_state :: state where
  "initial_state =
     \<lparr>final_code = None, feedback_summary = [], error_history = Map.empty,
      all_passed = True, current_attempt_errors = [], calls = [TimeTime]\<rparr>"

definition solve_task ::
  "env \<Rightarrow> (rat \<Rightarrow> pyfloat) \<Rightarrow> string \<Rightarrow> (string \<times> string) list \<Rightarrow> exn + terminal \<times> state" where
  "solve_task env rnd task_description test_cases =
     attempts env rnd task_description test_cases (time_time env []) [1..<MAX_ATTEMPTS + 1] initial_state"

text \<open>
  The feedback of one attempt as the test results alone give it: the line of the first
  test case that fails, and nothing when all pass. It takes neither an earlier feedback
  nor the error history.
\<close>

fun attempt_feedback ::
  "env \<Rightarrow> (rat \<Rightarrow> pyfloat) \<Rightarrow> string \<Rightarrow> (string \<times> string) list \<Rightarrow> nat \<Rightarrow> event list \<Rightarrow> string" where
  "attempt_feedback env rnd code [] idx tr = []"
| "attempt_feedback env rnd code ((input_data, expected_output) # rest) idx tr =
     (case run_code env code input_data tr of
        (Inl e, tr') \<Rightarrow> []
      | (Inr (output, error), tr') \<Rightarrow>
          (if error \<noteq> [] then execution_error_feedback idx error
           else if \<not> evaluate_output rnd output expected_output
           then mismatch_feedback idx expected_output output
           else attempt_feedback env rnd code rest (idx + 1) tr'))"

section \<open>Example environments\<close>

text \<open>
  Environments for the concrete runs below: the temporary file is always
  \<open>/tmp/tmpab12.py\<close>, it exists when it is to be removed, the collaborators return fixed
  programs, the clock shows the number of calls made so far, and a child process answers
  from its command line and its standard input.
\<close>

definition example_env :: "(string list \<Rightarrow> string option \<Rightarrow> exn + completed_process) \<Rightarrow> env" where
  "example_env child =
     \<lparr>named_temporary_file = (\<lambda>tr code. Inr ''/tmp/tmpab12.py''),
      subprocess_run = (\<lambda>tr argv inp t. child argv inp),
      path_exists = (\<lambda>tr f. True),
      os_remove = (\<lambda>tr f. Inr ()),
      generate_code = (\<lambda>tr task lang. ''import foo''),
      debug_code = (\<lambda>tr task fb lang. ''import foo''),
      time_time = (\<lambda>tr. of_nat (length tr))\<rparr>"

text \<open>The standard error of an interpreter that does not find the module \<open>foo\<close>.\<close>

definition missing_module_stderr :: string where
  "missing_module_stderr =
     ''Traceback (most recent call last):'' @ [newline] @
     ''  File '' @ [dquote] @ ''/tmp/tmpab12.py'' @ [dquote] @ '', line 1, in <module>'' @ [newline] @
     ''    import foo'' @ [newline] @
     ''ModuleNotFoundError: No module named '' @ [CHR 0x27] @ ''foo'' @ [CHR 0x27] @ [newline]"

text \<open>
  Every run of the interpreter misses the module \<open>foo\<close>; the package manager ends with
  the given return code.
\<close>

definition env_missing :: "int \<Rightarrow> env" where
  "env_missing pip_returncode =
     example_env (\<lambda>argv inp.
        if argv \<noteq> [] \<and> hd argv = ''pip''
        then Inr \<lparr>returncode = pip_returncode, stdout = [], stderr = []\<rparr>
        else Inr \<lparr>returncode = 1, stdout = [], stderr = missing_module_stderr\<rparr>)"

text \<open>Every child process runs into its timeout.\<close>

definition env_timeout :: env where
  "env_timeout = example_env (\<lambda>argv inp. Inl TimeoutExpired)"

text \<open>The calls that start the package manager.\<close>

fun is_install :: "event \<Rightarrow> bool" where
  "is_install (SubprocessRun argv inp t) = (take 2 argv = [''pip'', ''install''])"
| "is_install ev = False"

text \<open>Every run of the interpreter fails with the same error message.\<close>

definition env_boom :: env where
  "env_boom = example_env (\<lambda>argv inp. Inr \<lparr>returncode = 1, stdout = [], stderr = ''line 5: boom''\<rparr>)"

text \<open>The state of a session in which that error has been recorded once.\<close>

definition state_once :: state where
  "state_once = initial_state\<lparr>error_history := [''line X: boom'' \<mapsto> 1]\<rparr>"

text \<open>Every run of the interpreter prints 8 and writes only white space to its standard error.\<close>

definition env_blank :: env where
  "env_blank = example_env (\<lambda>argv inp.
     Inr \<lparr>returncode = 0, stdout = ''8'' @ [newline], stderr = '' '' @ [newline]\<rparr>)"

text \<open>
  The module \<open>foo\<close> is missing until the package manager has run, which succeeds; every
  run of the interpreter after that has the given outcome.
\<close>

definition env_installing :: "exn + completed_process \<Rightarrow> env" where
  "env_installing retry =
     (env_missing 0)\<lparr>subprocess_run := (\<lambda>tr argv inp t.
        if filter is_install tr \<noteq> [] then retry else subprocess_run (env_missing 0) tr argv inp t)\<rparr>"

text \<open>There is no interpreter to start.\<close>

definition env_no_interpreter :: env where
  "env_no_interpreter = example_env (\<lambda>argv inp. Inl FileNotFoundError)"

text \<open>The temporary file cannot be written.\<close>

definition env_no_space :: env where
  "env_no_space =
     env_timeout\<lparr>named_temporary_file := (\<lambda>tr code. Inl (Exception ''[Errno 28] No space left on device''))\<rparr>"

text \<open>The program in the temporary file: the one that was written last.\<close>

definition written :: "event list \<Rightarrow> string" where
  "written tr = foldl (\<lambda>code ev. case ev of NamedTemporaryFile c \<Rightarrow> c | _ \<Rightarrow> code) [] tr"

text \<open>
  The generated program divides by zero; the program that the debugger returns, whatever
  the feedback, prints 7.
\<close>

definition env_revising :: env where
  "env_revising =
     (example_env (\<lambda>argv inp. Inl FileNotFoundError))
       \<lparr>subprocess_run := (\<lambda>tr argv inp t.
          if written tr = ''print(1/0)''
          then Inr \<lparr>returncode = 1, stdout = [], stderr = ''ZeroDivisionError: division by zero'' @ [newline]\<rparr>
          else Inr \<lparr>returncode = 0, stdout = ''7'' @ [newline], stderr = []\<rparr>),
        generate_code := (\<lambda>tr task lang. ''print(1/0)''),
        debug_code := (\<lambda>tr task fb lang. ''print(7)'')\<rparr>"

text \<open>The calls of the collaborator that repairs a program.\<close>

fun is_debug :: "event \<Rightarrow> bool" where
  "is_debug (DebugCode task fb lang) = True"
| "is_debug ev = False"

section \<open>Properties of the output evaluator\<close>

text \<open>The equations that evaluate \<open>float(str)\<close> on a literal.\<close>

lemmas py_float_eval =
  py_float_def strip_def is_space_def sign_rest_def lower_def lower_char_def floatnumber_def
  number_def digitpart_def exponent_def pow10_def is_digit_def digit_val_def Let_def

text \<open>
  C1: when both trimmed strings parse as floats, \<open>evaluate_output\<close> is true exactly when
  the absolute value of their float difference is below \<open>1e-6\<close>: for two finite floats
  \<open>x\<close> and \<open>y\<close>, with \<open>d\<close> the rounded difference \<open>x - y\<close> and \<open>t\<close> the float \<open>1e-6\<close>,
  exactly when \<open>\<bar>d\<bar> < t\<close>, on both sides of zero and not at the bound; never when one of the
  two is an infinity or a NaN. When one of the strings does not parse, it is true exactly
  when the trimmed strings are equal.
\<close>

theorem evaluate_output_cases:
  "(py_float rnd (strip actual_output) = Some a \<and> py_float rnd (strip expected_output) = Some e \<longrightarrow>
      evaluate_output rnd actual_output expected_output = flt (fabs (fsub rnd a e)) (rnd (1 / 10 ^ 6))) \<and>
   (py_float rnd (strip actual_output) = Some (Finite x) \<and>
    py_float rnd (strip expected_output) = Some (Finite y) \<and>
    rnd (x - y) = Finite d \<and> rnd (1 / 10 ^ 6) = Finite t \<longrightarrow>
      evaluate_output rnd actual_output expected_output = (\<bar>d\<bar> < t)) \<and>
   (py_float rnd (strip actual_output) = Some a \<and> py_float rnd (strip expected_output) = Some e \<and>
    ((\<forall>q. a \<noteq> Finite q) \<or> (\<forall>q. e \<noteq> Finite q)) \<longrightarrow>
      \<not> evaluate_output rnd actual_output expected_output) \<and>
   (py_float rnd (strip actual_output) = None \<or> py_float rnd (strip expected_output) = None \<longrightarrow>
      evaluate_output rnd actual_output expected_output = (strip actual_output = strip expected_output))"
proof -
  have nf: "\<not> flt (fabs (fsub rnd a e)) z" if "(\<forall>q. a \<noteq> Finite q) \<or> (\<forall>q. e \<noteq> Finite q)" for z
    using that by (cases a; cases e; cases z) auto
  show ?thesis
    using nf by (auto simp: evaluate_output_def split: option.splits)
qed

theorem evaluate_output_cases_witness:
  "evaluate_output Finite ''3.0000001'' ''3.0'' \<and> evaluate_output Finite ''2.9999999'' ''3.0'' \<and>
   \<not> evaluate_output Finite ''3.01'' ''3.0'' \<and> \<not> evaluate_output Finite ''2.99'' ''3.0'' \<and>
   \<not> evaluate_output Finite ''3.000001'' ''3.0'' \<and> \<not> evaluate_output Finite ''2.999999'' ''3.0'' \<and>
   \<not> evaluate_output Finite ''inf'' ''3.0'' \<and>
   evaluate_output Finite '' hi '' ''hi'' \<and> \<not> evaluate_output Finite ''Hi'' ''hi''"
proof -
  have a1: "py_float Finite (strip ''3.0000001'') = Some (Finite (30000001 / 10000000))"
    by (simp add: py_float_eval)
  have a2: "py_float Finite (strip ''2.9999999'') = Some (Finite (29999999 / 10000000))"
    by (simp add: py_float_eval)
  have a3: "py_float Finite (strip ''3.01'') = Some (Finite (301 / 100))"
    by (simp add: py_float_eval)
  have a4: "py_float Finite (strip ''2.99'') = Some (Finite (299 / 100))"
    by (simp add: py_float_eval)
  have a5: "py_float Finite (strip ''3.000001'') = Some (Finite (3000001 / 1000000))"
    by (simp add: py_float_eval)
  have a6: "py_float Finite (strip ''2.999999'') = Some (Finite (2999999 / 1000000))"
    by (simp add: py_float_eval)
  have a7: "py_float Finite (strip ''inf'') = Some PosInf"
    by (simp add: py_float_eval)
  have e: "py_float Finite (strip ''3.0'') = Some (Finite 3)"
    by (simp add: py_float_eval)
  have h1: "py_float Finite (strip '' hi '') = None"
    by (simp add: py_float_eval)
  have h2: "py_float Finite (strip ''Hi'') = None"
    by (simp add: py_float_eval)
  have s1: "strip '' hi '' = strip ''hi''"
    by (simp add: strip_def is_space_def)
  have s2: "strip ''Hi'' \<noteq> strip ''hi''"
    by (simp add: strip_def is_space_def)
  have "evaluate_output Finite ''3.0000001'' ''3.0''"
    using evaluate_output_cases [where rnd = Finite and actual_output = "''3.0000001''"
        and expected_output = "''3.0''" and x = "30000001 / 10000000" and y = 3
        and d = "1 / 10000000" and t = "1 / 1000000"] a1 e
    by simp
  moreover have "evaluate_output Finite ''2.9999999'' ''3.0''"
    using evaluate_output_cases [where rnd = Finite and actual_output = "''2.9999999''"
        and expected_output = "''3.0''" and x = "29999999 / 10000000" and y = 3
        and d = "- (1 / 10000000)" and t = "1 / 1000000"] a2 e
    by simp
  moreover have "\<not> evaluate_output Finite ''3.01'' ''3.0''"
    using evaluate_output_cases [where rnd = Finite and actual_output = "''3.01''"
        and expected_output = "''3.0''" and x = "301 / 100" and y = 3
        and d = "1 / 100" and t = "1 / 1000000"] a3 e
    by simp
  moreover have "\<not> evaluate_output Finite ''2.99'' ''3.0''"
    using evaluate_output_cases [where rnd = Finite and actual_output = "''2.99''"
        and expected_output = "''3.0''" and x = "299 / 100" and y = 3
        and d = "- (1 / 100)" and t = "1 / 1000000"] a4 e
    by simp
  moreover have "\<not> evaluate_output Finite ''3.000001'' ''3.0''"
    using evaluate_output_cases [where rnd = Finite and actual_output = "''3.000001''"
        and expected_output = "''3.0''" and x = "3000001 / 1000000" and y = 3
        and d = "1 / 1000000" and t = "1 / 1000000"] a5 e
    by simp
  moreover have "\<not> evaluate_output Finite ''2.999999'' ''3.0''"
    using evaluate_output_cases [where rnd = Finite and actual_output = "''2.999999''"
        and expected_output = "''3.0''" and x = "2999999 / 1000000" and y = 3
        and d = "- (1 / 1000000)" and t = "1 / 1000000"] a6 e
    by simp
  moreover have "\<not> evaluate_output Finite ''inf'' ''3.0''"
    using evaluate_output_cases [where rnd = Finite and actual_output = "''inf''"
        and expected_output = "''3.0''" and a = PosInf and e = "Finite 3"] a7 e
    by simp
  moreover have "evaluate_output Finite '' hi '' ''hi''"
    using evaluate_output_cases [where rnd = Finite and actual_output = "'' hi ''"
        and expected_output = "''hi''"] h1 s1
    by simp
  moreover have "\<not> evaluate_output Finite ''Hi'' ''hi''"
    using evaluate_output_cases [where rnd = Finite and actual_output = "''Hi''"
        and expected_output = "''hi''"] h2 s2
    by simp
  ultimately show ?thesis by simp
qed

text \<open>
  C9: \<open>evaluate_output\<close> is not reflexive. A string that parses as a NaN or an infinity
  is not equal to itself: the difference is a NaN, and no NaN is below \<open>1e-6\<close>. The
  strings \<open>nan\<close> and \<open>inf\<close> are two of them.
\<close>

theorem evaluate_output_not_reflexive:
  "(py_float rnd (strip s) = Some x \<and> (x = NaN \<or> x = PosInf \<or> x = NegInf) \<longrightarrow> \<not> evaluate_output rnd s s) \<and>
   \<not> evaluate_output rnd ''nan'' ''nan'' \<and> \<not> evaluate_output rnd ''inf'' ''inf''"
proof -
  have nan: "py_float rnd (strip ''nan'') = Some NaN"
    by (simp add: py_float_def strip_def is_space_def sign_rest_def lower_def lower_char_def)
  have inf: "py_float rnd (strip ''inf'') = Some PosInf"
    by (simp add: py_float_def strip_def is_space_def sign_rest_def lower_def lower_char_def)
  have gen: "\<not> evaluate_output rnd t t"
    if "py_float rnd (strip t) = Some y" "y = NaN \<or> y = PosInf \<or> y = NegInf" for t y
    using that by (auto simp: evaluate_output_def)
  show ?thesis using gen nan inf by blast
qed

theorem evaluate_output_not_reflexive_witness:
  "\<not> evaluate_output Finite '' -Infinity'' '' -Infinity''"
proof -
  have "py_float Finite (strip '' -Infinity'') = Some NegInf"
    by code_simp
  then show ?thesis
    using evaluate_output_not_reflexive [of Finite "'' -Infinity''" NegInf] by simp
qed

section \<open>Properties of the sandboxed executor\<close>

text \<open>\<open>run_code\<close> returns a pair in every environment.\<close>

lemma run_code_Inr: "\<exists>out err. fst (run_code env code input_data tr) = Inr (out, err)"
proof -
  obtain r tf tr1 where t: "run_code_try env code input_data tr = (r, tf, tr1)"
    by (cases "run_code_try env code input_data tr") auto
  show ?thesis
  proof (cases r)
    case (Inl e)
    then show ?thesis using t by (cases e) (simp_all add: run_code_def)
  next
    case (Inr v)
    then show ?thesis using t by (cases v) (simp add: run_code_def)
  qed
qed

text \<open>
  C7: \<open>run_code\<close> always returns a pair and lets no exception reach its caller. An
  exception of the environment, when the temporary file is written, when the child process
  is run, or when it is run again after an installation, becomes an empty standard output
  and the text of its handler: the timeout message for a timeout, the message about the
  interpreter when no program is found, and the message that ends with the text of the
  exception for every other one. An exception of the package manager becomes the message
  of the failed installation.
\<close>

theorem run_code_total:
  "(\<exists>out err. fst (run_code env code input_data tr) = Inr (out, err)) \<and>
   (named_temporary_file env tr code = Inl e \<or>
    (named_temporary_file env tr code = Inr f \<and>
     subprocess_run env (tr @ [NamedTemporaryFile code]) [''python'', f] (Some input_data) 10 = Inl e) \<or>
    (named_temporary_file env tr code = Inr f \<and>
     subprocess_run env (tr @ [NamedTemporaryFile code]) [''python'', f] (Some input_data) 10 = Inr result \<and>
     strip (stderr result) \<noteq> [] \<and> sublist ''ModuleNotFoundError'' (strip (stderr result)) \<and>
     search_module (strip (stderr result)) = Some missing_module \<and>
     subprocess_run env (tr @ [NamedTemporaryFile code, SubprocessRun [''python'', f] (Some input_data) 10])
       [''pip'', ''install'', missing_module] None 30 = Inr pip \<and>
     returncode pip = 0 \<and>
     subprocess_run env
       (tr @ [NamedTemporaryFile code, SubprocessRun [''python'', f] (Some input_data) 10,
              SubprocessRun [''pip'', ''install'', missing_module] None 30])
       [''python'', f] (Some input_data) 10 = Inl e) \<longrightarrow>
    fst (run_code env code input_data tr) =
      Inr ([], case e of
                 TimeoutExpired \<Rightarrow> [CHR 0xE2, CHR 0x8F, CHR 0xB0] @ '' Code execution timed out (10 seconds limit)''
               | FileNotFoundError \<Rightarrow>
                   [CHR 0xE2, CHR 0x9D, CHR 0x8C] @
                   '' Python interpreter not found. Please ensure Python is installed and in PATH.''
               | Exception msg \<Rightarrow> [CHR 0xE2, CHR 0x9D, CHR 0x8C] @ '' Execution failed: '' @ msg)) \<and>
   (named_temporary_file env tr code = Inr f \<and>
    subprocess_run env (tr @ [NamedTemporaryFile code]) [''python'', f] (Some input_data) 10 = Inr result \<and>
    strip (stderr result) \<noteq> [] \<and> sublist ''ModuleNotFoundError'' (strip (stderr result)) \<and>
    search_module (strip (stderr result)) = Some missing_module \<and>
    subprocess_run env (tr @ [NamedTemporaryFile code, SubprocessRun [''python'', f] (Some input_data) 10])
      [''pip'', ''install'', missing_module] None 30 = Inl e' \<longrightarrow>
    fst (run_code env code input_data tr) =
      Inr ([], ''Failed to install required package '' @ [CHR 0x27] @ missing_module @ [CHR 0x27]))"
proof -
  have 1: "\<exists>out err. fst (run_code env code input_data tr) = Inr (out, err)"
    by (rule run_code_Inr)
  have 2: "fst (run_code env code input_data tr) =
      Inr ([], case e of
                 TimeoutExpired \<Rightarrow> [CHR 0xE2, CHR 0x8F, CHR 0xB0] @ '' Code execution timed out (10 seconds limit)''
               | FileNotFoundError \<Rightarrow>
                   [CHR 0xE2, CHR 0x9D, CHR 0x8C] @
                   '' Python interpreter not found. Please ensure Python is installed and in PATH.''
               | Exception msg \<Rightarrow> [CHR 0xE2, CHR 0x9D, CHR 0x8C] @ '' Execution failed: '' @ msg)"
    if "named_temporary_file env tr code = Inl e"
    using that
    by (cases e)
       (simp_all add: run_code_def run_code_try_def timeout_message_def interpreter_message_def failed_message_def)
  have 3: "fst (run_code env code input_data tr) =
      Inr ([], case e of
                 TimeoutExpired \<Rightarrow> [CHR 0xE2, CHR 0x8F, CHR 0xB0] @ '' Code execution timed out (10 seconds limit)''
               | FileNotFoundError \<Rightarrow>
                   [CHR 0xE2, CHR 0x9D, CHR 0x8C] @
                   '' Python interpreter not found. Please ensure Python is installed and in PATH.''
               | Exception msg \<Rightarrow> [CHR 0xE2, CHR 0x9D, CHR 0x8C] @ '' Execution failed: '' @ msg)"
    if "named_temporary_file env tr code = Inr f"
       "subprocess_run env (tr @ [NamedTemporaryFile code]) [''python'', f] (Some input_data) 10 = Inl e"
    using that
    by (cases e)
       (simp_all add: run_code_def run_code_try_def execution_timeout_def
          timeout_message_def interpreter_message_def failed_message_def)
  have 4: "fst (run_code env code input_data tr) =
      Inr ([], case e of
                 TimeoutExpired \<Rightarrow> [CHR 0xE2, CHR 0x8F, CHR 0xB0] @ '' Code execution timed out (10 seconds limit)''
               | FileNotFoundError \<Rightarrow>
                   [CHR 0xE2, CHR 0x9D, CHR 0x8C] @
                   '' Python interpreter not found. Please ensure Python is installed and in PATH.''
               | Exception msg \<Rightarrow> [CHR 0xE2, CHR 0x9D, CHR 0x8C] @ '' Execution failed: '' @ msg)"
    if "named_temporary_file env tr code = Inr f"
       "subprocess_run env (tr @ [NamedTemporaryFile code]) [''python'', f] (Some input_data) 10 = Inr result"
       "strip (stderr result) \<noteq> []" "sublist ''ModuleNotFoundError'' (strip (stderr result))"
       "search_module (strip (stderr result)) = Some missing_module"
       "subprocess_run env (tr @ [NamedTemporaryFile code, SubprocessRun [''python'', f] (Some input_data) 10])
          [''pip'', ''install'', missing_module] None 30 = Inr pip"
       "returncode pip = 0"
       "subprocess_run env
          (tr @ [NamedTemporaryFile code, SubprocessRun [''python'', f] (Some input_data) 10,
                 SubprocessRun [''pip'', ''install'', missing_module] None 30])
          [''python'', f] (Some input_data) 10 = Inl e"
    using that
    by (cases e)
       (simp_all add: run_code_def run_code_try_def install_package_def execution_timeout_def
          install_timeout_def timeout_message_def interpreter_message_def failed_message_def)
  have 5: "fst (run_code env code input_data tr) =
      Inr ([], ''Failed to install required package '' @ [CHR 0x27] @ missing_module @ [CHR 0x27])"
    if "named_temporary_file env tr code = Inr f"
       "subprocess_run env (tr @ [NamedTemporaryFile code]) [''python'', f] (Some input_data) 10 = Inr result"
       "strip (stderr result) \<noteq> []" "sublist ''ModuleNotFoundError'' (strip (stderr result))"
       "search_module (strip (stderr result)) = Some missing_module"
       "subprocess_run env (tr @ [NamedTemporaryFile code, SubprocessRun [''python'', f] (Some input_data) 10])
          [''pip'', ''install'', missing_module] None 30 = Inl e'"
    using that
    by (cases e')
       (simp_all add: run_code_def run_code_try_def install_package_def execution_timeout_def
          install_timeout_def install_failed_message_def)
  show ?thesis
    using 1 2 3 4 5 by blast
qed

theorem run_code_total_witness:
  "fst (run_code env_timeout ''while True: pass'' ''5'' []) =
     Inr ([], [CHR 0xE2, CHR 0x8F, CHR 0xB0] @ '' Code execution timed out (10 seconds limit)'') \<and>
   fst (run_code env_no_interpreter ''print(8)'' ''5'' []) =
     Inr ([], [CHR 0xE2, CHR 0x9D, CHR 0x8C] @
              '' Python interpreter not found. Please ensure Python is installed and in PATH.'') \<and>
   fst (run_code env_no_space ''print(8)'' ''5'' []) =
     Inr ([], [CHR 0xE2, CHR 0x9D, CHR 0x8C] @ '' Execution failed: [Errno 28] No space left on device'') \<and>
   fst (run_code (env_installing (Inl TimeoutExpired)) ''import foo'' ''5'' []) =
     Inr ([], [CHR 0xE2, CHR 0x8F, CHR 0xB0] @ '' Code execution timed out (10 seconds limit)'') \<and>
   fst (run_code (env_installing (Inl (Exception ''killed''))) ''import foo'' ''5'' []) =
     Inr ([], [CHR 0xE2, CHR 0x9D, CHR 0x8C] @ '' Execution failed: killed'')"
proof -
  let ?r = "\<lparr>returncode = 1, stdout = [], stderr = missing_module_stderr\<rparr>"
  let ?pip = "\<lparr>returncode = 0, stdout = [], stderr = []\<rparr>"
  have t1: "named_temporary_file env_timeout [] ''while True: pass'' = Inr ''/tmp/tmpab12.py''"
    by (simp add: env_timeout_def example_env_def)
  have t2: "subprocess_run env_timeout ([] @ [NamedTemporaryFile ''while True: pass''])
      [''python'', ''/tmp/tmpab12.py''] (Some ''5'') 10 = Inl TimeoutExpired"
    by (simp add: env_timeout_def example_env_def)
  have i1: "named_temporary_file env_no_interpreter [] ''print(8)'' = Inr ''/tmp/tmpab12.py''"
    by (simp add: env_no_interpreter_def example_env_def)
  have i2: "subprocess_run env_no_interpreter ([] @ [NamedTemporaryFile ''print(8)''])
      [''python'', ''/tmp/tmpab12.py''] (Some ''5'') 10 = Inl FileNotFoundError"
    by (simp add: env_no_interpreter_def example_env_def)
  have s1: "named_temporary_file env_no_space [] ''print(8)'' =
      Inl (Exception ''[Errno 28] No space left on device'')"
    by (simp add: env_no_space_def)
  have r1: "named_temporary_file (env_installing x) [] ''import foo'' = Inr ''/tmp/tmpab12.py''" for x
    by (simp add: env_installing_def env_missing_def example_env_def)
  have r2: "subprocess_run (env_installing x) ([] @ [NamedTemporaryFile ''import foo''])
      [''python'', ''/tmp/tmpab12.py''] (Some ''5'') 10 = Inr ?r" for x
    by (simp add: env_installing_def env_missing_def example_env_def)
  have r3: "strip (stderr ?r) \<noteq> []"
    by code_simp
  have r4: "sublist ''ModuleNotFoundError'' (strip (stderr ?r))"
    by code_simp
  have r5: "search_module (strip (stderr ?r)) = Some ''foo''"
    by code_simp
  have r6: "subprocess_run (env_installing x)
      ([] @ [NamedTemporaryFile ''import foo'', SubprocessRun [''python'', ''/tmp/tmpab12.py''] (Some ''5'') 10])
      [''pip'', ''install'', ''foo''] None 30 = Inr ?pip" for x
    by (simp add: env_installing_def env_missing_def example_env_def)
  have r7: "returncode ?pip = 0"
    by simp
  have r8: "subprocess_run (env_installing x)
      ([] @ [NamedTemporaryFile ''import foo'', SubprocessRun [''python'', ''/tmp/tmpab12.py''] (Some ''5'') 10,
             SubprocessRun [''pip'', ''install'', ''foo''] None 30])
      [''python'', ''/tmp/tmpab12.py''] (Some ''5'') 10 = x" for x
    by (simp add: env_installing_def)
  have "fst (run_code env_timeout ''while True: pass'' ''5'' []) =
     Inr ([], [CHR 0xE2, CHR 0x8F, CHR 0xB0] @ '' Code execution timed out (10 seconds limit)'')"
    using run_code_total [where env = env_timeout and code = "''while True: pass''" and input_data = "''5''"
        and tr = "[]" and f = "''/tmp/tmpab12.py''" and e = TimeoutExpired] t1 t2
    by simp
  moreover have "fst (run_code env_no_interpreter ''print(8)'' ''5'' []) =
     Inr ([], [CHR 0xE2, CHR 0x9D, CHR 0x8C] @
              '' Python interpreter not found. Please ensure Python is installed and in PATH.'')"
    using run_code_total [where env = env_no_interpreter and code = "''print(8)''" and input_data = "''5''"
        and tr = "[]" and f = "''/tmp/tmpab12.py''" and e = FileNotFoundError] i1 i2
    by simp
  moreover have "fst (run_code env_no_space ''print(8)'' ''5'' []) =
     Inr ([], [CHR 0xE2, CHR 0x9D, CHR 0x8C] @ '' Execution failed: [Errno 28] No space left on device'')"
    using run_code_total [where env = env_no_space and code = "''print(8)''" and input_data = "''5''"
        and tr = "[]" and e = "Exception ''[Errno 28] No space left on device''"] s1
    by simp
  moreover have "fst (run_code (env_installing (Inl TimeoutExpired)) ''import foo'' ''5'' []) =
     Inr ([], [CHR 0xE2, CHR 0x8F, CHR 0xB0] @ '' Code execution timed out (10 seconds limit)'')"
    using run_code_total [where env = "env_installing (Inl TimeoutExpired)" and code = "''import foo''"
        and input_data = "''5''" and tr = "[]" and f = "''/tmp/tmpab12.py''" and e = TimeoutExpired
        and result = ?r and missing_module = "''foo''" and pip = ?pip]
      r1 [of "Inl TimeoutExpired"] r2 [of "Inl TimeoutExpired"] r3 r4 r5
      r6 [of "Inl TimeoutExpired"] r7 r8 [of "Inl TimeoutExpired"]
    by simp
  moreover have "fst (run_code (env_installing (Inl (Exception ''killed''))) ''import foo'' ''5'' []) =
     Inr ([], [CHR 0xE2, CHR 0x9D, CHR 0x8C] @ '' Execution failed: killed'')"
    using run_code_total [where env = "env_installing (Inl (Exception ''killed''))" and code = "''import foo''"
        and input_data = "''5''" and tr = "[]" and f = "''/tmp/tmpab12.py''" and e = "Exception ''killed''"
        and result = ?r and missing_module = "''foo''" and pip = ?pip]
      r1 [of "Inl (Exception ''killed'')"] r2 [of "Inl (Exception ''killed'')"] r3 r4 r5
      r6 [of "Inl (Exception ''killed'')"] r7 r8 [of "Inl (Exception ''killed'')"]
    by simp
  ultimately show ?thesis by simp
qed

text \<open>
  C3, as the code has it: when the standard error of the child process is not empty and
  reports a missing module, \<open>run_code\<close> starts the package manager exactly once, for the
  module that the message names, with a timeout of its own (30), and that timeout is
  longer than the one of the child process (10).
\<close>

theorem one_install:
  assumes "named_temporary_file env tr code = Inr f"
      and "subprocess_run env (tr @ [NamedTemporaryFile code]) [''python'', f] (Some input_data) execution_timeout
             = Inr result"
      and "strip (stderr result) \<noteq> []"
      and "sublist ''ModuleNotFoundError'' (strip (stderr result))"
      and "search_module (strip (stderr result)) = Some missing_module"
    shows "filter is_install (snd (run_code env code input_data tr)) =
             filter is_install tr @ [SubprocessRun [''pip'', ''install'', missing_module] None install_timeout] \<and>
           execution_timeout < install_timeout"
  using assms
  by (auto simp: run_code_def run_code_try_def install_package_def run_code_finally_def Let_def
        install_timeout_def execution_timeout_def
      split: sum.splits exn.splits if_splits prod.splits)

theorem one_install_witness:
  "filter is_install (snd (run_code (env_missing 1) ''import foo'' ''5'' [])) =
     [SubprocessRun [''pip'', ''install'', ''foo''] None 30]"
proof -
  have 1: "named_temporary_file (env_missing 1) [] ''import foo'' = Inr ''/tmp/tmpab12.py''"
    by (simp add: env_missing_def example_env_def)
  have 2: "subprocess_run (env_missing 1) ([] @ [NamedTemporaryFile ''import foo''])
      [''python'', ''/tmp/tmpab12.py''] (Some ''5'') execution_timeout
        = Inr \<lparr>returncode = 1, stdout = [], stderr = missing_module_stderr\<rparr>"
    by (simp add: env_missing_def example_env_def)
  have 3: "strip (stderr \<lparr>returncode = 1, stdout = [], stderr = missing_module_stderr\<rparr>) \<noteq> []"
    by code_simp
  have 4: "sublist ''ModuleNotFoundError'' (strip (stderr \<lparr>returncode = 1, stdout = [], stderr = missing_module_stderr\<rparr>))"
    by code_simp
  have 5: "search_module (strip (stderr \<lparr>returncode = 1, stdout = [], stderr = missing_module_stderr\<rparr>)) = Some ''foo''"
    by code_simp
  show ?thesis
    using one_install [OF 1 2 3 4 5] by (simp add: install_timeout_def)
qed

text \<open>
  The timeout of the installation is not shorter than the one of the child process: in
  a run that misses the module \<open>foo\<close>, the interpreter is started with a timeout of 10 and
  the package manager with a timeout of 30.
\<close>

theorem install_timeout_counterexample:
  "SubprocessRun [''python'', ''/tmp/tmpab12.py''] (Some ''5'') 10
     \<in> set (snd (run_code (env_missing 0) ''import foo'' ''5'' [])) \<and>
   SubprocessRun [''pip'', ''install'', ''foo''] None 30
     \<in> set (snd (run_code (env_missing 0) ''import foo'' ''5'' [])) \<and>
   \<not> install_timeout < execution_timeout"
  by code_simp

text \<open>
  C6: on the recovery path, after a successful installation (the package manager returns
  with the return code 0) the child process is run once more with the same command line
  and the same standard input, and what that second run wrote (trimmed, as every captured
  output is) is the result, with no further installation whatever the second run reports;
  after a failed installation the result is an empty standard output and the message
  \<open>Failed to install required package\<close> followed by the name of the module in quotes.
\<close>

theorem recovery_path:
  assumes "named_temporary_file env tr code = Inr f"
      and "subprocess_run env (tr @ [NamedTemporaryFile code]) [''python'', f] (Some input_data) execution_timeout
             = Inr result"
      and "strip (stderr result) \<noteq> []"
      and "sublist ''ModuleNotFoundError'' (strip (stderr result))"
      and "search_module (strip (stderr result)) = Some missing_module"
    shows "(let tr2 = tr @ [NamedTemporaryFile code, SubprocessRun [''python'', f] (Some input_data) execution_timeout];
                tr3 = tr2 @ [SubprocessRun [''pip'', ''install'', missing_module] None install_timeout];
                tr4 = tr3 @ [SubprocessRun [''python'', f] (Some input_data) execution_timeout]
            in (fst (install_package env missing_module tr2) \<and>
                subprocess_run env tr3 [''python'', f] (Some input_data) execution_timeout = Inr retry_result \<longrightarrow>
                  run_code env code input_data tr =
                    (Inr (strip (stdout retry_result), strip (stderr retry_result)),
                     run_code_finally env (Some f) tr4)) \<and>
               (\<not> fst (install_package env missing_module tr2) \<longrightarrow>
                  run_code env code input_data tr =
                    (Inr ([], ''Failed to install required package '' @ [CHR 0x27] @ missing_module @ [CHR 0x27]),
                     run_code_finally env (Some f) tr3)) \<and>
               fst (install_package env missing_module tr2) =
                 (\<exists>pip. subprocess_run env tr2 [''pip'', ''install'', missing_module] None 30 = Inr pip \<and>
                        returncode pip = 0))"
proof -
  have inst: "fst (install_package env missing_module t) =
      (\<exists>pip. subprocess_run env t [''pip'', ''install'', missing_module] None 30 = Inr pip \<and> returncode pip = 0)" for t
    by (auto simp: install_package_def install_timeout_def Let_def split: sum.splits exn.splits)
  have main: "(let tr2 = tr @ [NamedTemporaryFile code, SubprocessRun [''python'', f] (Some input_data) execution_timeout];
                tr3 = tr2 @ [SubprocessRun [''pip'', ''install'', missing_module] None install_timeout];
                tr4 = tr3 @ [SubprocessRun [''python'', f] (Some input_data) execution_timeout]
            in (fst (install_package env missing_module tr2) \<and>
                subprocess_run env tr3 [''python'', f] (Some input_data) execution_timeout = Inr retry_result \<longrightarrow>
                  run_code env code input_data tr =
                    (Inr (strip (stdout retry_result), strip (stderr retry_result)),
                     run_code_finally env (Some f) tr4)) \<and>
               (\<not> fst (install_package env missing_module tr2) \<longrightarrow>
                  run_code env code input_data tr =
                    (Inr ([], ''Failed to install required package '' @ [CHR 0x27] @ missing_module @ [CHR 0x27]),
                     run_code_finally env (Some f) tr3)))"
    using assms
    by (auto simp: run_code_def run_code_try_def install_package_def install_failed_message_def Let_def
        split: sum.splits exn.splits if_splits prod.splits)
  show ?thesis
    using main inst by (simp add: Let_def)
qed

theorem recovery_path_witness:
  "run_code (env_installing (Inr \<lparr>returncode = 0, stdout = '' 8'' @ [CHR 0x0A], stderr = []\<rparr>)) ''import foo'' ''5'' [] =
     (Inr (''8'', []),
      [NamedTemporaryFile ''import foo'',
       SubprocessRun [''python'', ''/tmp/tmpab12.py''] (Some ''5'') 10,
       SubprocessRun [''pip'', ''install'', ''foo''] None 30,
       SubprocessRun [''python'', ''/tmp/tmpab12.py''] (Some ''5'') 10,
       PathExists ''/tmp/tmpab12.py'', OsRemove ''/tmp/tmpab12.py'']) \<and>
   run_code (env_missing 0) ''import foo'' ''5'' [] =
     (Inr ([], strip missing_module_stderr),
      [NamedTemporaryFile ''import foo'',
       SubprocessRun [''python'', ''/tmp/tmpab12.py''] (Some ''5'') 10,
       SubprocessRun [''pip'', ''install'', ''foo''] None 30,
       SubprocessRun [''python'', ''/tmp/tmpab12.py''] (Some ''5'') 10,
       PathExists ''/tmp/tmpab12.py'', OsRemove ''/tmp/tmpab12.py'']) \<and>
   run_code (env_missing 1) ''import foo'' ''5'' [] =
     (Inr ([], ''Failed to install required package '' @ [CHR 0x27] @ ''foo'' @ [CHR 0x27]),
      [NamedTemporaryFile ''import foo'',
       SubprocessRun [''python'', ''/tmp/tmpab12.py''] (Some ''5'') 10,
       SubprocessRun [''pip'', ''install'', ''foo''] None 30,
       PathExists ''/tmp/tmpab12.py'', OsRemove ''/tmp/tmpab12.py''])"
proof -
  let ?r = "\<lparr>returncode = 1, stdout = [], stderr = missing_module_stderr\<rparr>"
  let ?good = "\<lparr>returncode = 0, stdout = '' 8'' @ [CHR 0x0A], stderr = []\<rparr>"
  have 1: "named_temporary_file (env_missing rc) [] ''import foo'' = Inr ''/tmp/tmpab12.py''" for rc
    by (simp add: env_missing_def example_env_def)
  have 2: "subprocess_run (env_missing rc) ([] @ [NamedTemporaryFile ''import foo''])
      [''python'', ''/tmp/tmpab12.py''] (Some ''5'') execution_timeout = Inr ?r" for rc
    by (simp add: env_missing_def example_env_def)
  have 3: "strip (stderr ?r) \<noteq> []"
    by code_simp
  have 4: "sublist ''ModuleNotFoundError'' (strip (stderr ?r))"
    by code_simp
  have 5: "search_module (strip (stderr ?r)) = Some ''foo''"
    by code_simp
  have 6: "subprocess_run (env_missing rc) tr [''python'', ''/tmp/tmpab12.py''] (Some ''5'') execution_timeout
      = Inr ?r" for rc tr
    by (simp add: env_missing_def example_env_def)
  have ok: "fst (install_package (env_missing 0) ''foo'' tr)" for tr
    by (simp add: install_package_def env_missing_def example_env_def)
  have fail: "\<not> fst (install_package (env_missing 1) ''foo'' tr)" for tr
    by (simp add: install_package_def env_missing_def example_env_def)
  have ex: "path_exists (env_missing rc) tr ''/tmp/tmpab12.py''" for rc tr
    by (simp add: env_missing_def example_env_def)
  have g1: "named_temporary_file (env_installing x) [] ''import foo'' = Inr ''/tmp/tmpab12.py''" for x
    by (simp add: env_installing_def env_missing_def example_env_def)
  have g2: "subprocess_run (env_installing x) ([] @ [NamedTemporaryFile ''import foo''])
      [''python'', ''/tmp/tmpab12.py''] (Some ''5'') execution_timeout = Inr ?r" for x
    by (simp add: env_installing_def env_missing_def example_env_def)
  have gok: "fst (install_package (env_installing x) ''foo''
      [NamedTemporaryFile ''import foo'', SubprocessRun [''python'', ''/tmp/tmpab12.py''] (Some ''5'') 10])" for x
    by (simp add: install_package_def env_installing_def env_missing_def example_env_def)
  have g6: "subprocess_run (env_installing x)
      [NamedTemporaryFile ''import foo'', SubprocessRun [''python'', ''/tmp/tmpab12.py''] (Some ''5'') 10,
       SubprocessRun [''pip'', ''install'', ''foo''] None 30]
      [''python'', ''/tmp/tmpab12.py''] (Some ''5'') 10 = x" for x
    by (simp add: env_installing_def)
  have gex: "path_exists (env_installing x) tr ''/tmp/tmpab12.py''" for x tr
    by (simp add: env_installing_def env_missing_def example_env_def)
  have gs: "strip ('' 8'' @ [CHR 0x0A]) = ''8''"
    by code_simp
  have "run_code (env_installing (Inr ?good)) ''import foo'' ''5'' [] =
     (Inr (''8'', []),
      [NamedTemporaryFile ''import foo'',
       SubprocessRun [''python'', ''/tmp/tmpab12.py''] (Some ''5'') 10,
       SubprocessRun [''pip'', ''install'', ''foo''] None 30,
       SubprocessRun [''python'', ''/tmp/tmpab12.py''] (Some ''5'') 10,
       PathExists ''/tmp/tmpab12.py'', OsRemove ''/tmp/tmpab12.py''])"
    using recovery_path [OF g1 g2 3 4 5, of "Inr ?good" ?good] gok [of "Inr ?good"] g6 [of "Inr ?good"]
      gex [of "Inr ?good"] gs
    by (simp add: Let_def run_code_finally_def execution_timeout_def install_timeout_def strip_def)
  moreover have "run_code (env_missing 0) ''import foo'' ''5'' [] =
     (Inr ([], strip missing_module_stderr),
      [NamedTemporaryFile ''import foo'',
       SubprocessRun [''python'', ''/tmp/tmpab12.py''] (Some ''5'') 10,
       SubprocessRun [''pip'', ''install'', ''foo''] None 30,
       SubprocessRun [''python'', ''/tmp/tmpab12.py''] (Some ''5'') 10,
       PathExists ''/tmp/tmpab12.py'', OsRemove ''/tmp/tmpab12.py''])"
    using recovery_path [OF 1 2 3 4 5, of 0 ?r] ok 6 [of 0] ex [of 0]
    by (simp add: Let_def run_code_finally_def execution_timeout_def install_timeout_def strip_def)
  moreover have "run_code (env_missing 1) ''import foo'' ''5'' [] =
     (Inr ([], ''Failed to install required package '' @ [CHR 0x27] @ ''foo'' @ [CHR 0x27]),
      [NamedTemporaryFile ''import foo'',
       SubprocessRun [''python'', ''/tmp/tmpab12.py''] (Some ''5'') 10,
       SubprocessRun [''pip'', ''install'', ''foo''] None 30,
       PathExists ''/tmp/tmpab12.py'', OsRemove ''/tmp/tmpab12.py''])"
    using recovery_path [OF 1 2 3 4 5, of 1 ?r] fail ex [of 1]
    by (simp add: Let_def run_code_finally_def execution_timeout_def install_timeout_def)
  ultimately show ?thesis by simp
qed

text \<open>
  C10: every result of \<open>run_code\<close> that comes from a completed child process is the
  captured standard output and standard error with the surrounding white space removed,
  on the plain path and after a re-run. So two child processes whose outputs differ only
  in surrounding white space give the same result, and a standard error of white space
  alone gives an empty error, which the loop over the test cases takes as no execution
  error: it records no signature and judges the test by \<open>evaluate_output\<close>.
\<close>

lemma all_dropWhile: "(\<forall>x \<in> set (dropWhile P s). P x) \<longleftrightarrow> (\<forall>x \<in> set s. P x)"
proof
  assume a: "\<forall>x \<in> set (dropWhile P s). P x"
  have "dropWhile P s = []"
  proof (rule ccontr)
    assume n: "dropWhile P s \<noteq> []"
    then have "\<not> P (hd (dropWhile P s))"
      by (rule hd_dropWhile)
    moreover have "hd (dropWhile P s) \<in> set (dropWhile P s)"
      using n by simp
    ultimately show False
      using a by blast
  qed
  then show "\<forall>x \<in> set s. P x"
    by (simp add: dropWhile_eq_Nil_conv)
next
  assume "\<forall>x \<in> set s. P x"
  then show "\<forall>x \<in> set (dropWhile P s). P x"
    by (meson set_dropWhileD)
qed

lemma strip_Nil_iff: "strip s = [] \<longleftrightarrow> (\<forall>c \<in> set s. is_space c)"
  by (simp add: strip_def all_dropWhile)

theorem captured_output_stripped:
  assumes "named_temporary_file env tr code = Inr f"
      and "subprocess_run env (tr @ [NamedTemporaryFile code]) [''python'', f] (Some input_data) execution_timeout
             = Inr result"
    shows "((strip (stderr result) = [] \<or> \<not> sublist ''ModuleNotFoundError'' (strip (stderr result)) \<or>
             search_module (strip (stderr result)) = None) \<longrightarrow>
              fst (run_code env code input_data tr) = Inr (strip (stdout result), strip (stderr result))) \<and>
           (\<forall>missing_module retry_result.
              strip (stderr result) \<noteq> [] \<and> sublist ''ModuleNotFoundError'' (strip (stderr result)) \<and>
              search_module (strip (stderr result)) = Some missing_module \<and>
              fst (install_package env missing_module
                     (tr @ [NamedTemporaryFile code,
                            SubprocessRun [''python'', f] (Some input_data) execution_timeout])) \<and>
              subprocess_run env
                (tr @ [NamedTemporaryFile code,
                       SubprocessRun [''python'', f] (Some input_data) execution_timeout,
                       SubprocessRun [''pip'', ''install'', missing_module] None install_timeout])
                [''python'', f] (Some input_data) execution_timeout = Inr retry_result \<longrightarrow>
              fst (run_code env code input_data tr) =
                Inr (strip (stdout retry_result), strip (stderr retry_result))) \<and>
           (\<forall>env' tr' code' input_data' f' result'.
              named_temporary_file env' tr' code' = Inr f' \<and>
              subprocess_run env' (tr' @ [NamedTemporaryFile code']) [''python'', f'] (Some input_data')
                execution_timeout = Inr result' \<and>
              strip (stdout result') = strip (stdout result) \<and>
              strip (stderr result') = strip (stderr result) \<and>
              search_module (strip (stderr result)) = None \<longrightarrow>
              fst (run_code env' code' input_data' tr') = fst (run_code env code input_data tr)) \<and>
           ((\<forall>c \<in> set (stderr result). is_space c) \<longrightarrow>
              fst (run_code env code input_data tr) = Inr (strip (stdout result), []) \<and>
              (calls st = tr \<longrightarrow>
                 (\<exists>st'. run_tests env rnd code [(input_data, expected_output)] idx st = Inr st' \<and>
                    current_attempt_errors st' = current_attempt_errors st \<and>
                    error_history st' = error_history st \<and>
                    all_passed st' = (all_passed st \<and> evaluate_output rnd (strip (stdout result)) expected_output))))"
proof -
  have plain: "fst (run_code env0 code0 input0 tr0) = Inr (strip (stdout result0), strip (stderr result0))"
    if "named_temporary_file env0 tr0 code0 = Inr f0"
       "subprocess_run env0 (tr0 @ [NamedTemporaryFile code0]) [''python'', f0] (Some input0) execution_timeout
          = Inr result0"
       "strip (stderr result0) = [] \<or> \<not> sublist ''ModuleNotFoundError'' (strip (stderr result0)) \<or>
        search_module (strip (stderr result0)) = None"
    for env0 tr0 code0 input0 f0 result0
    using that by (auto simp: run_code_def run_code_try_def Let_def)
  have 1: "(strip (stderr result) = [] \<or> \<not> sublist ''ModuleNotFoundError'' (strip (stderr result)) \<or>
             search_module (strip (stderr result)) = None) \<longrightarrow>
              fst (run_code env code input_data tr) = Inr (strip (stdout result), strip (stderr result))"
    using plain [OF assms] by blast
  have 2: "fst (run_code env code input_data tr) = Inr (strip (stdout retry_result), strip (stderr retry_result))"
    if "strip (stderr result) \<noteq> []" "sublist ''ModuleNotFoundError'' (strip (stderr result))"
       "search_module (strip (stderr result)) = Some missing_module"
       "fst (install_package env missing_module
               (tr @ [NamedTemporaryFile code, SubprocessRun [''python'', f] (Some input_data) execution_timeout]))"
       "subprocess_run env
          (tr @ [NamedTemporaryFile code,
                 SubprocessRun [''python'', f] (Some input_data) execution_timeout,
                 SubprocessRun [''pip'', ''install'', missing_module] None install_timeout])
          [''python'', f] (Some input_data) execution_timeout = Inr retry_result"
    for missing_module retry_result
    using assms that
    by (auto simp: run_code_def run_code_try_def install_package_def Let_def
        split: sum.splits exn.splits if_splits prod.splits)
  have 3: "fst (run_code env' code' input_data' tr') = fst (run_code env code input_data tr)"
    if "named_temporary_file env' tr' code' = Inr f'"
       "subprocess_run env' (tr' @ [NamedTemporaryFile code']) [''python'', f'] (Some input_data')
          execution_timeout = Inr result'"
       "strip (stdout result') = strip (stdout result)"
       "strip (stderr result') = strip (stderr result)"
       "search_module (strip (stderr result)) = None"
    for env' tr' code' input_data' f' result'
    using plain [OF assms] plain [OF that(1,2)] that(3,4,5) by simp
  have 4: "fst (run_code env code input_data tr) = Inr (strip (stdout result), []) \<and>
      (calls st = tr \<longrightarrow>
         (\<exists>st'. run_tests env rnd code [(input_data, expected_output)] idx st = Inr st' \<and>
            current_attempt_errors st' = current_attempt_errors st \<and>
            error_history st' = error_history st \<and>
            all_passed st' = (all_passed st \<and> evaluate_output rnd (strip (stdout result)) expected_output)))"
    if "\<forall>c \<in> set (stderr result). is_space c"
  proof -
    have e: "strip (stderr result) = []"
      using that by (simp add: strip_Nil_iff)
    have rc: "fst (run_code env code input_data tr) = Inr (strip (stdout result), [])"
      using plain [OF assms] e by simp
    show ?thesis
      using rc by (cases "run_code env code input_data tr") (auto simp: Let_def)
  qed
  show ?thesis
    using 1 2 3 4 by blast
qed

theorem captured_output_stripped_witness:
  "fst (run_code env_blank ''print(8)'' ''5'' []) = Inr (''8'', []) \<and>
   (\<exists>st'. run_tests env_blank Finite ''print(8)'' [(''5'', ''8.0'')] 1 (initial_state\<lparr>calls := []\<rparr>) = Inr st' \<and>
      current_attempt_errors st' = [] \<and> all_passed st')"
proof -
  let ?r = "\<lparr>returncode = 0, stdout = ''8'' @ [newline], stderr = '' '' @ [newline]\<rparr>"
  have 1: "named_temporary_file env_blank [] ''print(8)'' = Inr ''/tmp/tmpab12.py''"
    by (simp add: env_blank_def example_env_def)
  have 2: "subprocess_run env_blank ([] @ [NamedTemporaryFile ''print(8)''])
      [''python'', ''/tmp/tmpab12.py''] (Some ''5'') execution_timeout = Inr ?r"
    by (simp add: env_blank_def example_env_def)
  have 3: "\<forall>c \<in> set (stderr ?r). is_space c"
    by (simp add: is_space_def newline_def)
  have 4: "strip (stdout ?r) = ''8''"
    by (simp add: strip_def is_space_def newline_def)
  have 5: "evaluate_output Finite ''8'' ''8.0''"
    by (simp add: evaluate_output_def py_float_eval)
  have 6: "calls (initial_state\<lparr>calls := []\<rparr>) = []" "current_attempt_errors (initial_state\<lparr>calls := []\<rparr>) = []"
    "all_passed (initial_state\<lparr>calls := []\<rparr>)"
    by (simp_all add: initial_state_def)
  show ?thesis
    using captured_output_stripped [OF 1 2, of "initial_state\<lparr>calls := []\<rparr>" Finite "''8.0''" 1] 3 4 5 6
    by auto
qed

section \<open>Properties of the error normalizer\<close>

lemma everywhere_Nil: "everywhere Q s \<Longrightarrow> Q []"
  by (induction s) auto

lemma everywhere_drop: "everywhere Q s \<Longrightarrow> everywhere Q (drop n s)"
proof (induction s arbitrary: n)
  case Nil
  then show ?case by simp
next
  case (Cons c cs)
  then show ?case by (cases n) auto
qed

lemma everywhere_append:
  "everywhere Q (a @ b) \<longleftrightarrow> (\<forall>y. suffix y a \<and> y \<noteq> [] \<longrightarrow> Q (y @ b)) \<and> everywhere Q b"
proof (induction a)
  case Nil
  then show ?case by simp
next
  case (Cons c a)
  show ?case
    by (auto simp: Cons suffix_Cons)
qed

lemma everywhere_mono: "everywhere Q s \<Longrightarrow> (\<And>x. Q x \<Longrightarrow> R x) \<Longrightarrow> everywhere R s"
  by (induction s) auto

lemma re_sub_fix:
  assumes "everywhere (\<lambda>x. \<forall>n. m x = Some n \<longrightarrow> 0 < n \<and> take n x = repl) s"
  shows "re_sub m repl s = s"
  using assms
proof (induction m repl s rule: re_sub.induct)
  case (1 m repl)
  then show ?case by simp
next
  case (2 m repl c cs)
  show ?case
  proof (cases "m (c # cs)")
    case None
    with 2 show ?thesis by simp
  next
    case (Some n)
    with 2(3) have n: "0 < n" "take n (c # cs) = repl"
      by auto
    have "everywhere (\<lambda>x. \<forall>n. m x = Some n \<longrightarrow> 0 < n \<and> take n x = repl) (drop (n - 1) cs)"
      using 2(3) by (simp add: everywhere_drop)
    then have "re_sub m repl (drop (n - 1) cs) = drop (n - 1) cs"
      using 2(2) [OF Some] by simp
    moreover have "drop (n - 1) cs = drop n (c # cs)"
      using n(1) by (cases n) auto
    ultimately show ?thesis
      using Some n(2) by (simp del: take_Suc_Cons drop_Suc_Cons) (metis append_take_drop_id)
  qed
qed

lemma re_sub_establish:
  assumes repl: "\<And>z. everywhere Q z \<Longrightarrow> everywhere Q (repl @ z)"
      and copy: "\<And>c cs. m (c # cs) = None \<Longrightarrow> everywhere Q (re_sub m repl cs) \<Longrightarrow> Q (c # re_sub m repl cs)"
      and nil: "Q []"
    shows "everywhere Q (re_sub m repl s)"
proof (induction "length s" arbitrary: s rule: less_induct)
  case less
  show ?case
  proof (cases s)
    case Nil
    then show ?thesis by (simp add: nil)
  next
    case (Cons c cs)
    show ?thesis
    proof (cases "m (c # cs)")
      case None
      have "everywhere Q (re_sub m repl cs)"
        using less [of cs] Cons by simp
      then show ?thesis
        using None Cons copy by simp
    next
      case (Some n)
      have "everywhere Q (re_sub m repl (drop (n - 1) cs))"
        using less [of "drop (n - 1) cs"] Cons by simp
      then show ?thesis
        using Some Cons repl by simp
    qed
  qed
qed

lemma re_sub_preserve:
  assumes repl: "\<And>z. everywhere Q z \<Longrightarrow> everywhere Q (repl @ z)"
      and copy: "\<And>c cs. m (c # cs) = None \<Longrightarrow> Q (c # cs) \<Longrightarrow> everywhere Q (re_sub m repl cs) \<Longrightarrow>
                   Q (c # re_sub m repl cs)"
      and s: "everywhere Q s"
    shows "everywhere Q (re_sub m repl s)"
  using s
proof (induction "length s" arbitrary: s rule: less_induct)
  case less
  show ?case
  proof (cases s)
    case Nil
    then show ?thesis using less.prems by simp
  next
    case (Cons c cs)
    show ?thesis
    proof (cases "m (c # cs)")
      case None
      have "everywhere Q (re_sub m repl cs)"
        using less.hyps [of cs] less.prems Cons by simp
      then show ?thesis
        using None Cons copy less.prems by simp
    next
      case (Some n)
      have "everywhere Q (drop (n - 1) cs)"
        using less.prems Cons by (simp add: everywhere_drop)
      then have "everywhere Q (re_sub m repl (drop (n - 1) cs))"
        using less.hyps [of "drop (n - 1) cs"] Cons by simp
      then show ?thesis
        using Some Cons repl by simp
    qed
  qed
qed

text \<open>Where every match starts with the first character of the replacement.\<close>

lemma re_sub_Nil_iff:
  assumes "repl \<noteq> []"
  shows "re_sub m repl s = [] \<longleftrightarrow> s = []"
  using assms by (cases s) (auto split: option.splits)

lemma re_sub_hd:
  assumes "\<And>x n. m x = Some n \<Longrightarrow> hd x = a" and "repl \<noteq> []" and "hd repl = a" and "s \<noteq> []"
  shows "hd (re_sub m repl s) = hd s"
proof (cases s)
  case Nil
  with assms show ?thesis by simp
next
  case (Cons c cs)
  show ?thesis
  proof (cases "m (c # cs)")
    case None
    with Cons show ?thesis by simp
  next
    case (Some n)
    then have "c = a" using assms(1) by fastforce
    with Some Cons assms(2,3) show ?thesis by simp
  qed
qed

lemma re_sub_prefix:
  assumes m: "\<And>x n. m x = Some n \<Longrightarrow> hd x = a" and r: "repl \<noteq> []" "hd repl = a" and p: "a \<notin> set p"
  shows "prefix p (re_sub m repl s) \<longleftrightarrow> prefix p s"
  using p
proof (induction p arbitrary: s)
  case Nil
  then show ?case by simp
next
  case (Cons b p)
  show ?case
  proof (cases s)
    case Nil
    then show ?thesis by simp
  next
    case (Cons c cs)
    show ?thesis
    proof (cases "m (c # cs)")
      case None
      then show ?thesis
        using Cons Cons.IH [of cs] Cons.prems by simp
    next
      case (Some n)
      then have "c = a" using m by fastforce
      moreover obtain r' where "repl = a # r'"
        using r by (cases repl) auto
      ultimately show ?thesis
        using Some Cons Cons.prems by auto
    qed
  qed
qed

lemma re_sub_set: "set (re_sub m repl s) \<subseteq> set s \<union> set repl"
proof (induction "length s" arbitrary: s rule: less_induct)
  case less
  show ?case
  proof (cases s)
    case Nil
    then show ?thesis by simp
  next
    case (Cons c cs)
    show ?thesis
    proof (cases "m (c # cs)")
      case None
      then show ?thesis
        using less [of cs] Cons by auto
    next
      case (Some n)
      have "set (re_sub m repl (drop (n - 1) cs)) \<subseteq> set (drop (n - 1) cs) \<union> set repl"
        using less [of "drop (n - 1) cs"] Cons by simp
      moreover have "set (drop (n - 1) cs) \<subseteq> set cs"
        by (rule set_drop_subset)
      ultimately show ?thesis
        using Some Cons by auto
    qed
  qed
qed

lemma digit_chars:
  "is_digit d \<Longrightarrow> d \<noteq> CHR ''l'' \<and> d \<noteq> CHR ''F'' \<and> d \<noteq> CHR ''t'' \<and> d \<noteq> CHR ''X'' \<and> d \<noteq> newline \<and> d \<noteq> dquote
     \<and> d \<noteq> CHR ''i'' \<and> d \<noteq> CHR ''n'' \<and> d \<noteq> CHR ''e'' \<and> d \<noteq> CHR '' ''"
  by (auto simp: is_digit_def newline_def dquote_def)

lemma not_digit_X: "\<not> is_digit (CHR ''X'')"
  by (simp add: is_digit_def)

lemma word_chars:
  "is_word (CHR ''t'')" "is_word (CHR ''m'')" "is_word (CHR ''p'')" "is_word (CHR ''X'')"
  "\<not> is_word (CHR ''.'')" "\<not> is_word newline" "\<not> is_word dquote" "\<not> is_word (CHR '' '')"
  by (simp_all add: is_word_def newline_def dquote_def)

lemma space_chars:
  "is_space (CHR '' '')" "is_space newline" "\<not> is_space (CHR ''X'')" "\<not> is_space dquote"
  by (simp_all add: is_space_def newline_def dquote_def)

lemma match_line_iff:
  "match_line x \<noteq> None \<longleftrightarrow> (\<exists>d. is_digit d \<and> prefix (''line '' @ [d]) x)"
proof
  assume "match_line x \<noteq> None"
  then have p: "prefix ''line '' x" and t: "takeWhile is_digit (drop 5 x) \<noteq> []"
    by (auto simp: match_line_def split: if_splits)
  from p obtain y where x: "x = ''line '' @ y"
    by (auto simp: prefix_def)
  with t have "y \<noteq> []" "is_digit (hd y)"
    by (auto simp: takeWhile_eq_Nil_iff)
  then show "\<exists>d. is_digit d \<and> prefix (''line '' @ [d]) x"
    using x by (cases y) auto
next
  assume "\<exists>d. is_digit d \<and> prefix (''line '' @ [d]) x"
  then obtain d z where "is_digit d" "x = (''line '' @ [d]) @ z"
    by (auto simp: prefix_def)
  then show "match_line x \<noteq> None"
    by (simp add: match_line_def)
qed

lemma match_line_hd: "match_line x = Some n \<Longrightarrow> hd x = CHR ''l''"
  by (auto simp: match_line_def prefix_def split: if_splits)

lemma match_file_hd: "match_file x = Some n \<Longrightarrow> hd x = CHR ''F''"
  by (auto simp: match_file_def prefix_def split: if_splits)

lemma match_tmp_hd: "match_tmp x = Some n \<Longrightarrow> hd x = CHR ''t''"
  by (auto simp: match_tmp_def prefix_def Let_def split: if_splits)

text \<open>No match of the first pattern is left after its substitution, nor after the two others.\<close>

lemma no_line_copy:
  assumes m: "\<And>x n. m x = Some n \<Longrightarrow> hd x = a" and r: "repl \<noteq> []" "hd repl = a"
      and a: "a \<notin> set ''ine ''" "\<not> is_digit a"
      and c: "match_line (c # cs) = None"
    shows "match_line (c # re_sub m repl cs) = None"
proof (rule ccontr)
  assume "match_line (c # re_sub m repl cs) \<noteq> None"
  then obtain d where d: "is_digit d" "prefix (''line '' @ [d]) (c # re_sub m repl cs)"
    using match_line_iff by blast
  then have "c = CHR ''l''" and "prefix (''ine '' @ [d]) (re_sub m repl cs)"
    by auto
  moreover have "a \<notin> set (''ine '' @ [d])"
    using a d(1) by auto
  then have "prefix (''ine '' @ [d]) (re_sub m repl cs) = prefix (''ine '' @ [d]) cs"
    using m r by (intro re_sub_prefix [where a = a]) auto
  ultimately have "prefix (''ine '' @ [d]) cs"
    by blast
  with \<open>c = CHR ''l''\<close> have "prefix (''line '' @ [d]) (c # cs)"
    by simp
  with d(1) c match_line_iff show False
    by blast
qed

lemma sub_line_no_line: "everywhere (\<lambda>x. match_line x = None) (sub_line s)"
  unfolding sub_line_def
proof (rule re_sub_establish)
  fix z :: string
  assume "everywhere (\<lambda>x. match_line x = None) z"
  then show "everywhere (\<lambda>x. match_line x = None) (''line X'' @ z)"
    by (simp add: match_line_def not_digit_X)
next
  fix c cs
  assume "match_line (c # cs) = None"
  then show "match_line (c # re_sub match_line ''line X'' cs) = None"
    by (intro no_line_copy [where a = "CHR ''l''"]) (auto simp: match_line_hd is_digit_def)
next
  show "match_line [] = None"
    by (simp add: match_line_def)
qed

lemma sub_file_no_line:
  assumes "everywhere (\<lambda>x. match_line x = None) s"
  shows "everywhere (\<lambda>x. match_line x = None) (sub_file s)"
  unfolding sub_file_def
proof (rule re_sub_preserve [OF _ _ assms])
  fix z :: string
  assume "everywhere (\<lambda>x. match_line x = None) z"
  then show "everywhere (\<lambda>x. match_line x = None) ((''File '' @ [dquote, CHR ''X'', dquote]) @ z)"
    by (simp add: match_line_def dquote_def)
next
  fix c cs
  assume "match_line (c # cs) = None"
  then show "match_line (c # re_sub match_file (''File '' @ [dquote, CHR ''X'', dquote]) cs) = None"
    by (intro no_line_copy [where a = "CHR ''F''"]) (auto simp: match_file_hd is_digit_def)
qed

lemma sub_tmp_no_line:
  assumes "everywhere (\<lambda>x. match_line x = None) s"
  shows "everywhere (\<lambda>x. match_line x = None) (sub_tmp s)"
  unfolding sub_tmp_def
proof (rule re_sub_preserve [OF _ _ assms])
  fix z :: string
  assume "everywhere (\<lambda>x. match_line x = None) z"
  then show "everywhere (\<lambda>x. match_line x = None) (''tmpX.py'' @ z)"
    by (simp add: match_line_def)
next
  fix c cs
  assume "match_line (c # cs) = None"
  then show "match_line (c # re_sub match_tmp ''tmpX.py'' cs) = None"
    by (intro no_line_copy [where a = "CHR ''t''"]) (auto simp: match_tmp_hd is_digit_def)
qed

lemma everywhere_set: "(\<forall>c \<in> set z. P c) \<Longrightarrow> everywhere (\<lambda>x. \<forall>c \<in> set x. P c) z"
  by (induction z) auto

lemma sub_file_no_quote:
  assumes "dquote \<notin> set z"
  shows "sub_file z = z"
  unfolding sub_file_def
proof (rule re_sub_fix)
  have "everywhere (\<lambda>x. \<forall>c \<in> set x. c \<noteq> dquote) z"
    using assms by (intro everywhere_set) auto
  then show "everywhere (\<lambda>x. \<forall>n. match_file x = Some n \<longrightarrow>
      0 < n \<and> take n x = ''File '' @ [dquote, CHR ''X'', dquote]) z"
  proof (rule everywhere_mono)
    fix x :: string
    assume "\<forall>c \<in> set x. c \<noteq> dquote"
    then have "dquote \<notin> set (drop 6 x)"
      using in_set_dropD [of dquote 6 x] by blast
    then show "\<forall>n. match_file x = Some n \<longrightarrow> 0 < n \<and> take n x = ''File '' @ [dquote, CHR ''X'', dquote]"
      by (simp add: match_file_def)
  qed
qed

lemma sub_file_ile: "sub_file (''ile '' @ dquote # z) = ''ile '' @ dquote # sub_file z"
  by (simp add: sub_file_def match_file_def dquote_def)

lemma sub_tmp_ile: "sub_tmp (''ile '' @ dquote # z) = ''ile '' @ dquote # sub_tmp z"
  by (simp add: sub_tmp_def match_tmp_def dquote_def)

lemma sub_tmp_mp: "sub_tmp (''mp'' @ z) = ''mp'' @ sub_tmp z"
  by (simp add: sub_tmp_def match_tmp_def)

lemma sub_file_prefix: "CHR ''F'' \<notin> set p \<Longrightarrow> prefix p (sub_file s) = prefix p s"
  unfolding sub_file_def
  by (rule re_sub_prefix [where a = "CHR ''F''"]) (auto simp: match_file_hd)

lemma sub_tmp_prefix: "CHR ''t'' \<notin> set p \<Longrightarrow> prefix p (sub_tmp s) = prefix p s"
  unfolding sub_tmp_def
  by (rule re_sub_prefix [where a = "CHR ''t''"]) (auto simp: match_tmp_hd)

lemma sub_file_ok: "everywhere file_ok (sub_file s)"
  unfolding sub_file_def
proof (rule re_sub_establish)
  fix z :: string
  assume "everywhere file_ok z"
  then show "everywhere file_ok ((''File '' @ [dquote, CHR ''X'', dquote]) @ z)"
    by (simp add: file_ok_def dquote_def)
next
  fix c cs
  assume none: "match_file (c # cs) = None"
  show "file_ok (c # re_sub match_file (''File '' @ [dquote, CHR ''X'', dquote]) cs)"
    unfolding file_ok_def sub_file_def [symmetric]
  proof
    assume "prefix (''File '' @ [dquote]) (c # sub_file cs)"
    then have c: "c = CHR ''F''" and "prefix (''ile '' @ [dquote]) (sub_file cs)"
      by auto
    then have "prefix (''ile '' @ [dquote]) cs"
      using sub_file_prefix [of "''ile '' @ [dquote]" cs] by (simp add: dquote_def)
    then obtain z where cs: "cs = ''ile '' @ dquote # z"
      by (auto simp: prefix_def)
    have "dquote \<notin> set z"
      using none c cs by (simp add: match_file_def split: if_splits)
    then have "sub_file cs = ''ile '' @ dquote # z"
      using cs sub_file_ile sub_file_no_quote by simp
    then show "prefix (''File '' @ [dquote, CHR ''X'', dquote]) (c # sub_file cs) \<or>
        dquote \<notin> set (drop 6 (c # sub_file cs))"
      using \<open>dquote \<notin> set z\<close> by simp
  qed
next
  show "file_ok []"
    by (simp add: file_ok_def)
qed

lemma sub_tmp_file_ok:
  assumes "everywhere file_ok s"
  shows "everywhere file_ok (sub_tmp s)"
  unfolding sub_tmp_def
proof (rule re_sub_preserve [OF _ _ assms])
  fix z :: string
  assume "everywhere file_ok z"
  then show "everywhere file_ok (''tmpX.py'' @ z)"
    by (simp add: file_ok_def dquote_def)
next
  fix c cs
  assume ok: "file_ok (c # cs)"
  show "file_ok (c # re_sub match_tmp ''tmpX.py'' cs)"
    unfolding file_ok_def sub_tmp_def [symmetric]
  proof
    assume "prefix (''File '' @ [dquote]) (c # sub_tmp cs)"
    then have c: "c = CHR ''F''" and "prefix (''ile '' @ [dquote]) (sub_tmp cs)"
      by auto
    then have "prefix (''ile '' @ [dquote]) cs"
      using sub_tmp_prefix [of "''ile '' @ [dquote]" cs] by (simp add: dquote_def)
    then obtain z where cs: "cs = ''ile '' @ dquote # z"
      by (auto simp: prefix_def)
    have sub: "sub_tmp cs = ''ile '' @ dquote # sub_tmp z"
      using cs sub_tmp_ile by simp
    from ok c cs consider "prefix [CHR ''X'', dquote] z" | "dquote \<notin> set z"
      by (auto simp: file_ok_def)
    then show "prefix (''File '' @ [dquote, CHR ''X'', dquote]) (c # sub_tmp cs) \<or>
        dquote \<notin> set (drop 6 (c # sub_tmp cs))"
    proof cases
      case 1
      then have "prefix [CHR ''X'', dquote] (sub_tmp z)"
        using sub_tmp_prefix [of "[CHR ''X'', dquote]" z] by (simp add: dquote_def)
      then show ?thesis
        using c sub by simp
    next
      case 2
      have "set (sub_tmp z) \<subseteq> set z \<union> set ''tmpX.py''"
        unfolding sub_tmp_def by (rule re_sub_set)
      then have "dquote \<notin> set (sub_tmp z)"
        using 2 by (auto simp: dquote_def)
      then show ?thesis
        using sub by simp
    qed
  qed
qed

lemma match_tmp_iff:
  "match_tmp x \<noteq> None \<longleftrightarrow>
     (\<exists>y. x = ''tmp'' @ y \<and> y \<noteq> [] \<and> is_word (hd y) \<and> prefix ''.py'' (dropWhile is_word y))"
proof
  assume a: "match_tmp x \<noteq> None"
  then have p: "prefix ''tmp'' x"
    by (auto simp: match_tmp_def split: if_splits)
  then obtain y where x: "x = ''tmp'' @ y"
    by (auto simp: prefix_def)
  have d3: "drop 3 x = y"
    using x by simp
  have d: "drop (3 + k) x = drop k y" for k
    using d3 by (metis add.commute drop_drop)
  have "takeWhile is_word (drop 3 x) \<noteq> []"
    and "prefix ''.py'' (drop (3 + length (takeWhile is_word (drop 3 x))) x)"
    using a p by (auto simp: match_tmp_def Let_def split: if_splits)
  then have "takeWhile is_word y \<noteq> []" and "prefix ''.py'' (drop (length (takeWhile is_word y)) y)"
    using d3 d by simp_all
  then have "y \<noteq> []" "is_word (hd y)" "prefix ''.py'' (dropWhile is_word y)"
    by (auto simp: takeWhile_eq_Nil_iff dropWhile_eq_drop)
  with x show "\<exists>y. x = ''tmp'' @ y \<and> y \<noteq> [] \<and> is_word (hd y) \<and> prefix ''.py'' (dropWhile is_word y)"
    by blast
next
  assume "\<exists>y. x = ''tmp'' @ y \<and> y \<noteq> [] \<and> is_word (hd y) \<and> prefix ''.py'' (dropWhile is_word y)"
  then obtain y where y: "x = ''tmp'' @ y" "y \<noteq> []" "is_word (hd y)" "prefix ''.py'' (dropWhile is_word y)"
    by blast
  have p: "prefix ''tmp'' x"
    using y(1) by simp
  have d3: "drop 3 x = y"
    using y(1) by simp
  have d: "drop (3 + k) x = drop k y" for k
    using d3 by (metis add.commute drop_drop)
  have "takeWhile is_word (drop 3 x) \<noteq> []"
    using y d3 by (simp add: takeWhile_eq_Nil_iff)
  moreover have "prefix ''.py'' (drop (3 + length (takeWhile is_word (drop 3 x))) x)"
    using y(4) d3 d by (simp add: dropWhile_eq_drop)
  ultimately show "match_tmp x \<noteq> None"
    using p by (simp add: match_tmp_def Let_def)
qed

lemma sub_tmp_tail:
  "prefix ''.py'' (dropWhile is_word (sub_tmp z)) \<Longrightarrow> prefix ''.py'' (dropWhile is_word z)"
proof (induction z)
  case Nil
  then show ?case by (simp add: sub_tmp_def)
next
  case (Cons c cs)
  show ?case
  proof (cases "match_tmp (c # cs)")
    case (Some n)
    then obtain y where y: "c # cs = ''tmp'' @ y" "prefix ''.py'' (dropWhile is_word y)"
      using match_tmp_iff [of "c # cs"] by auto
    have "dropWhile is_word (''tmp'' @ y) = dropWhile is_word y"
      by (simp add: word_chars)
    then show ?thesis
      using y by simp
  next
    case None
    then have s: "sub_tmp (c # cs) = c # sub_tmp cs"
      by (simp add: sub_tmp_def)
    show ?thesis
    proof (cases "is_word c")
      case True
      then show ?thesis
        using Cons s by simp
    next
      case False
      then have "c = CHR ''.''" and "prefix ''py'' (sub_tmp cs)"
        using Cons.prems s by auto
      then have "prefix ''py'' cs"
        using sub_tmp_prefix [of "''py''" cs] by simp
      then show ?thesis
        using False \<open>c = CHR ''.''\<close> by simp
    qed
  qed
qed

lemma sub_tmp_hd: "z \<noteq> [] \<Longrightarrow> hd (sub_tmp z) = hd z"
  unfolding sub_tmp_def
  by (rule re_sub_hd [where a = "CHR ''t''"]) (auto simp: match_tmp_hd)

lemma sub_tmp_Nil_iff: "sub_tmp z = [] \<longleftrightarrow> z = []"
  unfolding sub_tmp_def by (rule re_sub_Nil_iff) simp

lemma sub_tmp_ok: "everywhere tmp_ok (sub_tmp s)"
  unfolding sub_tmp_def
proof (rule re_sub_establish)
  fix z :: string
  assume "everywhere tmp_ok z"
  then show "everywhere tmp_ok (''tmpX.py'' @ z)"
    by (simp add: tmp_ok_def match_tmp_def)
next
  fix c cs
  assume none: "match_tmp (c # cs) = None"
  have "match_tmp (c # sub_tmp cs) = None"
  proof (rule ccontr)
    assume "match_tmp (c # sub_tmp cs) \<noteq> None"
    then obtain y where y: "c # sub_tmp cs = ''tmp'' @ y" "y \<noteq> []" "is_word (hd y)"
        "prefix ''.py'' (dropWhile is_word y)"
      using match_tmp_iff [of "c # sub_tmp cs"] by blast
    then have c: "c = CHR ''t''" and "prefix ''mp'' (sub_tmp cs)"
      by auto
    then have "prefix ''mp'' cs"
      using sub_tmp_prefix [of "''mp''" cs] by simp
    then obtain z where cs: "cs = ''mp'' @ z"
      by (auto simp: prefix_def)
    then have yz: "y = sub_tmp z"
      using y(1) sub_tmp_mp [of z] by simp
    have "z \<noteq> []"
      using y(2) yz sub_tmp_Nil_iff by blast
    moreover have "is_word (hd z)"
      using y(3) yz sub_tmp_hd [OF \<open>z \<noteq> []\<close>] by simp
    moreover have "prefix ''.py'' (dropWhile is_word z)"
      using y(4) yz sub_tmp_tail by blast
    ultimately have "match_tmp (c # cs) \<noteq> None"
      using match_tmp_iff [of "c # cs"] c cs by simp
    with none show False
      by simp
  qed
  then show "tmp_ok (c # re_sub match_tmp ''tmpX.py'' cs)"
    by (simp add: tmp_ok_def sub_tmp_def)
next
  show "tmp_ok []"
    by (simp add: tmp_ok_def match_tmp_def)
qed

text \<open>A text in which the matches of a pattern are its replacement is a fixed point.\<close>

lemma sub_line_fix:
  assumes "everywhere (\<lambda>x. match_line x = None) s"
  shows "sub_line s = s"
  unfolding sub_line_def
  by (rule re_sub_fix) (rule everywhere_mono [OF assms], simp)

lemma sub_file_fix:
  assumes "everywhere file_ok s"
  shows "sub_file s = s"
  unfolding sub_file_def
proof (rule re_sub_fix, rule everywhere_mono [OF assms], intro allI impI)
  fix x n
  assume ok: "file_ok x" and m: "match_file x = Some n"
  from m have p: "prefix (''File '' @ [dquote]) x" and q: "dquote \<in> set (drop 6 x)"
    and n: "n = 6 + length (takeWhile (\<lambda>c. c \<noteq> dquote) (drop 6 x)) + 1"
    by (auto simp: match_file_def split: if_splits)
  from ok p q have "prefix (''File '' @ [dquote, CHR ''X'', dquote]) x"
    by (auto simp: file_ok_def)
  then obtain z where x: "x = (''File '' @ [dquote, CHR ''X'', dquote]) @ z"
    by (auto simp: prefix_def)
  have "n = 8"
    using n x by (simp add: dquote_def)
  then show "0 < n \<and> take n x = ''File '' @ [dquote, CHR ''X'', dquote]"
    using x by simp
qed

lemma sub_tmp_fix:
  assumes "everywhere tmp_ok s"
  shows "sub_tmp s = s"
  unfolding sub_tmp_def
proof (rule re_sub_fix, rule everywhere_mono [OF assms], intro allI impI)
  fix x n
  assume ok: "tmp_ok x" and m: "match_tmp x = Some n"
  then have "prefix ''tmpX.py'' x"
    by (simp add: tmp_ok_def)
  then obtain z where x: "x = ''tmpX.py'' @ z"
    by (auto simp: prefix_def)
  have "n = 7"
    using m x by (simp add: match_tmp_def word_chars split: if_splits)
  then show "0 < n \<and> take n x = ''tmpX.py''"
    using x by simp
qed

lemma join_lines_Cons:
  "join_lines (l # ls) = l @ (if ls = [] then [] else newline # join_lines ls)"
  by (cases ls) auto

lemma split_lines_not_Nil: "split_lines t \<noteq> []"
  by (induction t) (auto split: list.splits)

lemma join_split: "join_lines (split_lines t) = t"
proof (induction t)
  case Nil
  then show ?case by simp
next
  case (Cons c cs)
  obtain l ls where s: "split_lines cs = l # ls"
    using split_lines_not_Nil [of cs] by (cases "split_lines cs") auto
  show ?case
    using Cons s by (auto simp: join_lines_Cons)
qed

lemma split_lines_no_newline: "l \<in> set (split_lines t) \<Longrightarrow> newline \<notin> set l"
proof (induction t arbitrary: l)
  case Nil
  then show ?case by simp
next
  case (Cons c cs)
  obtain l0 ls where s: "split_lines cs = l0 # ls"
    using split_lines_not_Nil [of cs] by (cases "split_lines cs") auto
  show ?case
    using Cons s by (auto split: if_splits)
qed

lemma split_lines_line: "newline \<notin> set l \<Longrightarrow> split_lines (l @ newline # t) = l # split_lines t"
  by (induction l) auto

lemma split_lines_last: "newline \<notin> set l \<Longrightarrow> split_lines l = [l]"
  by (induction l) auto

lemma split_join:
  "ls \<noteq> [] \<Longrightarrow> (\<forall>l \<in> set ls. newline \<notin> set l) \<Longrightarrow> split_lines (join_lines ls) = ls"
proof (induction ls)
  case Nil
  then show ?case by simp
next
  case (Cons l ls)
  show ?case
  proof (cases ls)
    case Nil
    then show ?thesis using Cons.prems by (simp add: split_lines_last)
  next
    case (Cons l2 rest)
    then show ?thesis
      using Cons.IH Cons.prems by (simp add: split_lines_line)
  qed
qed

text \<open>What \<open>strip\<close> removes, and what it leaves.\<close>

lemma strip_decomp:
  "\<exists>w1 w2. l = w1 @ strip l @ w2 \<and> (\<forall>c \<in> set w1. is_space c) \<and> (\<forall>c \<in> set w2. is_space c)"
proof -
  let ?d = "dropWhile is_space l"
  have 1: "l = takeWhile is_space l @ ?d"
    by simp
  have "?d = rev (takeWhile is_space (rev ?d) @ dropWhile is_space (rev ?d))"
    by (simp only: takeWhile_dropWhile_id rev_rev_ident)
  also have "\<dots> = rev (dropWhile is_space (rev ?d)) @ rev (takeWhile is_space (rev ?d))"
    by (simp only: rev_append)
  finally have 2: "?d = strip l @ rev (takeWhile is_space (rev ?d))"
    by (simp only: strip_def)
  have 3: "takeWhile is_space l @ ?d =
      takeWhile is_space l @ strip l @ rev (takeWhile is_space (rev ?d))"
    using 2 by (rule arg_cong)
  have 4: "l = takeWhile is_space l @ strip l @ rev (takeWhile is_space (rev ?d))"
    using 3 by (simp only: takeWhile_dropWhile_id)
  have 5: "\<forall>c \<in> set (takeWhile is_space l). is_space c"
    by (auto dest: set_takeWhileD)
  have 6: "\<forall>c \<in> set (rev (takeWhile is_space (rev ?d))). is_space c"
    by (auto dest: set_takeWhileD)
  show ?thesis
    by (rule exI [of _ "takeWhile is_space l"], rule exI [of _ "rev (takeWhile is_space (rev ?d))"])
       (use 4 5 6 in blast)
qed

lemma strip_hd: "strip l \<noteq> [] \<Longrightarrow> \<not> is_space (hd (strip l))"
proof -
  let ?d = "dropWhile is_space l"
  let ?e = "dropWhile is_space (rev ?d)"
  assume n: "strip l \<noteq> []"
  then have e: "?e \<noteq> []"
    by (simp add: strip_def)
  then have d: "?d \<noteq> []"
    by (metis dropWhile.simps(1) rev.simps(1))
  have "hd (strip l) = last ?e"
    using e by (simp add: strip_def hd_rev)
  also have "\<dots> = last (rev ?d)"
  proof -
    have "rev ?d = takeWhile is_space (rev ?d) @ ?e"
      by simp
    then show ?thesis
      using e by (metis last_appendR)
  qed
  also have "\<dots> = hd ?d"
    using d by (simp add: last_rev)
  finally show ?thesis
    using hd_dropWhile [OF d] by simp
qed

lemma strip_last: "strip l \<noteq> [] \<Longrightarrow> \<not> is_space (last (strip l))"
proof -
  let ?d = "dropWhile is_space l"
  let ?e = "dropWhile is_space (rev ?d)"
  assume n: "strip l \<noteq> []"
  then have e: "?e \<noteq> []"
    by (simp add: strip_def)
  have "last (strip l) = hd ?e"
    using e by (simp add: strip_def last_rev)
  then show ?thesis
    using hd_dropWhile [OF e] by simp
qed

lemma dropWhile_id: "s \<noteq> [] \<Longrightarrow> \<not> P (hd s) \<Longrightarrow> dropWhile P s = s"
  by (cases s) auto

lemma strip_fix: "s \<noteq> [] \<Longrightarrow> \<not> is_space (hd s) \<Longrightarrow> \<not> is_space (last s) \<Longrightarrow> strip s = s"
proof -
  assume s: "s \<noteq> []" "\<not> is_space (hd s)" "\<not> is_space (last s)"
  have "dropWhile is_space s = s"
    using s by (simp add: dropWhile_id)
  moreover have "dropWhile is_space (rev s) = rev s"
    using s by (intro dropWhile_id) (simp_all add: hd_rev)
  ultimately show ?thesis
    by (simp add: strip_def)
qed

lemma strip_Nil: "strip [] = []"
  by (simp add: strip_def)

lemma strip_strip: "strip (strip l) = strip l"
proof (cases "strip l = []")
  case True
  then show ?thesis by (simp add: strip_Nil)
next
  case False
  then show ?thesis
    by (intro strip_fix strip_hd strip_last)
qed

lemma set_strip: "set (strip l) \<subseteq> set l"
proof -
  obtain w1 w2 where d: "l = w1 @ strip l @ w2"
    using strip_decomp [of l] by blast
  have "set l = set (w1 @ strip l @ w2)"
    using d by (rule arg_cong)
  then show ?thesis
    by auto
qed

text \<open>The lines that the loop keeps.\<close>

lemma core_error_lines:
  "l' \<in> set (core_error ls) \<Longrightarrow> \<exists>l \<in> set ls. l' = strip l \<and> strip l \<noteq> []"
  by (induction ls) (auto split: if_splits)

lemma core_error_fix:
  "(\<forall>l \<in> set ls. strip l = l \<and> l \<noteq> []) \<Longrightarrow> core_error ls = ls"
proof (induction ls)
  case Nil
  then show ?case by simp
next
  case (Cons l ls)
  then have l: "strip l = l" "l \<noteq> []"
    by auto
  have "\<not> is_space (hd l)"
    using strip_hd [of l] l by simp
  then have "\<not> prefix ''  File '' l"
    using l(2) by (cases l) (auto simp: space_chars)
  then show ?case
    using Cons l by simp
qed

lemma set_join_lines_upper: "set (join_lines ls) \<subseteq> insert newline (\<Union> (set ` set ls))"
  by (induction ls) (auto simp: join_lines_Cons split: if_splits)

lemma set_join_lines_lower: "\<Union> (set ` set ls) \<subseteq> set (join_lines ls)"
  by (induction ls) (auto simp: join_lines_Cons split: if_splits)

lemma set_join_core: "set (join_lines (core_error ls)) \<subseteq> insert newline (set (join_lines ls))"
proof -
  have "\<Union> (set ` set (core_error ls)) \<subseteq> \<Union> (set ` set ls)"
  proof
    fix c
    assume "c \<in> \<Union> (set ` set (core_error ls))"
    then obtain l' where "l' \<in> set (core_error ls)" "c \<in> set l'"
      by blast
    then obtain l where "l \<in> set ls" "c \<in> set (strip l)"
      using core_error_lines by blast
    then show "c \<in> \<Union> (set ` set ls)"
      using set_strip by blast
  qed
  then have "insert newline (\<Union> (set ` set (core_error ls))) \<subseteq> insert newline (\<Union> (set ` set ls))"
    by (rule insert_mono)
  also have "\<dots> \<subseteq> insert newline (set (join_lines ls))"
    using set_join_lines_lower [of ls] by (rule insert_mono)
  finally show ?thesis
    using set_join_lines_upper [of "core_error ls"] by (rule subset_trans [rotated])
qed

lemma prefix_line:
  assumes "newline \<notin> set p" and "T' = [] \<or> hd T' = newline" and "prefix p (y @ T')"
  shows "prefix p y"
proof -
  from assms(3) consider "prefix p y" | us where "p = y @ us" "prefix us T'"
    by (auto simp: prefix_append)
  then show ?thesis
  proof cases
    case 1
    then show ?thesis .
  next
    case 2
    show ?thesis
    proof (cases us)
      case Nil
      with 2 show ?thesis by simp
    next
      case (Cons u us')
      with 2(2) obtain t where "T' = u # t"
        by (cases T') auto
      with assms(2) have "u = newline" by simp
      with 2(1) Cons assms(1) show ?thesis by simp
    qed
  qed
qed

lemma everywhere_core_error:
  assumes H: "\<And>y w T T'. y \<noteq> [] \<Longrightarrow> (\<forall>c \<in> set w. is_space c) \<Longrightarrow> T = [] \<or> hd T = newline \<Longrightarrow>
                T' = [] \<or> hd T' = newline \<Longrightarrow> set T' \<subseteq> insert newline (set T) \<Longrightarrow>
                Q (y @ w @ T) \<Longrightarrow> Q (y @ T')"
      and H0: "\<And>J. Q (newline # J)"
      and ev: "everywhere Q (join_lines ls)"
    shows "everywhere Q (join_lines (core_error ls))"
  using ev
proof (induction ls)
  case Nil
  then show ?case by simp
next
  case (Cons l ls)
  let ?T = "if ls = [] then [] else newline # join_lines ls"
  let ?T' = "if core_error ls = [] then [] else newline # join_lines (core_error ls)"
  have old: "everywhere Q (l @ ?T)"
    using Cons.prems by (simp only: join_lines_Cons)
  then have evT: "everywhere Q ?T"
    by (simp only: everywhere_append)
  have evJ: "everywhere Q (join_lines ls)"
  proof (cases "ls = []")
    case True
    then show ?thesis using everywhere_Nil [OF old] by simp
  next
    case False
    then show ?thesis using evT by simp
  qed
  have IH: "everywhere Q (join_lines (core_error ls))"
    using Cons.IH [OF evJ] .
  have evT': "everywhere Q ?T'"
    using IH H0 everywhere_Nil [OF old] by simp
  show ?case
  proof (cases "strip l \<noteq> [] \<and> \<not> prefix ''  File '' l")
    case False
    then have "core_error (l # ls) = core_error ls"
      by auto
    then show ?thesis
      using IH by simp
  next
    case True
    then have c: "join_lines (core_error (l # ls)) = strip l @ ?T'"
      by (simp add: join_lines_Cons)
    obtain w1 w2 where d: "l = w1 @ strip l @ w2" and w2: "\<forall>c \<in> set w2. is_space c"
      using strip_decomp [of l] by blast
    have sub: "set ?T' \<subseteq> insert newline (set ?T)"
    proof (cases "core_error ls = []")
      case True
      then show ?thesis by simp
    next
      case False
      then have "ls \<noteq> []" by auto
      then show ?thesis
        using False set_join_core [of ls] by auto
    qed
    have "Q (y @ ?T')" if y: "suffix y (strip l)" "y \<noteq> []" for y
    proof -
      obtain p where "strip l = p @ y"
        using y(1) by (auto simp: suffix_def)
      then have "l = (w1 @ p) @ (y @ w2)"
        using d by (metis append.assoc)
      then have "suffix (y @ w2) l"
        by (metis suffixI)
      then have "Q ((y @ w2) @ ?T)"
        using old y(2) by (simp only: everywhere_append) blast
      then have q: "Q (y @ w2 @ ?T)"
        by simp
      have t1: "?T = [] \<or> hd ?T = newline"
        by simp
      have t2: "?T' = [] \<or> hd ?T' = newline"
        by simp
      show ?thesis
        using H [OF y(2) w2 t1 t2 sub q] .
    qed
    then show ?thesis
      using evT' by (simp only: c everywhere_append) blast
  qed
qed

lemma post_no_line:
  assumes "everywhere (\<lambda>x. match_line x = None) (join_lines ls)"
  shows "everywhere (\<lambda>x. match_line x = None) (join_lines (core_error ls))"
proof (rule everywhere_core_error [OF _ _ assms])
  fix y w T T'
  assume T': "T' = [] \<or> hd T' = newline" and old: "match_line (y @ w @ T) = None"
  show "match_line (y @ T') = None"
  proof (rule ccontr)
    assume "match_line (y @ T') \<noteq> None"
    then obtain d where d: "is_digit d" "prefix (''line '' @ [d]) (y @ T')"
      using match_line_iff by blast
    have "newline \<notin> set (''line '' @ [d])"
      using digit_chars [OF d(1)] by (auto simp: newline_def)
    then have "prefix (''line '' @ [d]) y"
      using T' d(2) by (rule prefix_line)
    then have "prefix (''line '' @ [d]) (y @ w @ T)"
      using prefix_prefix by blast
    with d(1) old match_line_iff show False
      by blast
  qed
next
  fix J
  show "match_line (newline # J) = None"
    by (simp add: match_line_def newline_def)
qed

lemma prefix_stop:
  assumes "\<forall>c \<in> set p. \<not> S c" and "R = [] \<or> S (hd R)" and "prefix p (y @ R)"
  shows "prefix p y"
proof -
  from assms(3) consider "prefix p y" | us where "p = y @ us" "prefix us R"
    by (auto simp: prefix_append)
  then show ?thesis
  proof cases
    case 1
    then show ?thesis .
  next
    case 2
    show ?thesis
    proof (cases us)
      case Nil
      with 2 show ?thesis by simp
    next
      case (Cons u us')
      with 2(2) obtain t where "R = u # t"
        by (cases R) auto
      with assms(2) have "S u" by simp
      with 2(1) Cons assms(1) show ?thesis by simp
    qed
  qed
qed

lemma match_tmp_pat:
  "match_tmp x \<noteq> None \<longleftrightarrow>
     (\<exists>wd r. wd \<noteq> [] \<and> (\<forall>c \<in> set wd. is_word c) \<and> x = ''tmp'' @ wd @ ''.py'' @ r)"
proof
  assume "match_tmp x \<noteq> None"
  then obtain y where y: "x = ''tmp'' @ y" "y \<noteq> []" "is_word (hd y)" "prefix ''.py'' (dropWhile is_word y)"
    using match_tmp_iff by blast
  then obtain r where r: "dropWhile is_word y = ''.py'' @ r"
    by (auto simp: prefix_def)
  have "y = takeWhile is_word y @ dropWhile is_word y"
    by simp
  then have "y = takeWhile is_word y @ ''.py'' @ r"
    using r by simp
  moreover have "takeWhile is_word y \<noteq> []"
    using y(2,3) by (simp add: takeWhile_eq_Nil_iff)
  moreover have "\<forall>c \<in> set (takeWhile is_word y). is_word c"
    by (auto dest: set_takeWhileD)
  ultimately show "\<exists>wd r. wd \<noteq> [] \<and> (\<forall>c \<in> set wd. is_word c) \<and> x = ''tmp'' @ wd @ ''.py'' @ r"
    using y(1) by (metis append.assoc)
next
  assume "\<exists>wd r. wd \<noteq> [] \<and> (\<forall>c \<in> set wd. is_word c) \<and> x = ''tmp'' @ wd @ ''.py'' @ r"
  then obtain wd r where w: "wd \<noteq> []" "\<forall>c \<in> set wd. is_word c" "x = ''tmp'' @ wd @ ''.py'' @ r"
    by blast
  have "dropWhile is_word (wd @ ''.py'' @ r) = dropWhile is_word (''.py'' @ r)"
    using w(2) by (intro dropWhile_append2) simp
  then have "prefix ''.py'' (dropWhile is_word (wd @ ''.py'' @ r))"
    by (simp add: word_chars)
  moreover have "is_word (hd (wd @ ''.py'' @ r))"
    using w(1,2) by (cases wd) auto
  ultimately show "match_tmp x \<noteq> None"
    using w(1,3) match_tmp_iff [of x] by blast
qed

lemma post_tmp_ok:
  assumes "everywhere tmp_ok (join_lines ls)"
  shows "everywhere tmp_ok (join_lines (core_error ls))"
proof (rule everywhere_core_error [OF _ _ assms])
  fix y w T T'
  assume T': "T' = [] \<or> hd T' = newline" and old: "tmp_ok (y @ w @ T)"
  show "tmp_ok (y @ T')"
    unfolding tmp_ok_def
  proof
    assume "match_tmp (y @ T') \<noteq> None"
    then obtain wd r where wd: "wd \<noteq> []" "\<forall>c \<in> set wd. is_word c" "y @ T' = ''tmp'' @ wd @ ''.py'' @ r"
      using match_tmp_pat by blast
    let ?p = "''tmp'' @ wd @ ''.py''"
    have pn: "\<forall>c \<in> set ?p. \<not> c = newline"
      using wd(2) word_chars(6) by (auto simp: newline_def)
    have pp: "prefix ?p (y @ T')"
      using wd(3) by (simp add: prefix_def)
    have "prefix ?p y"
      by (rule prefix_stop [where S = "\<lambda>c. c = newline", OF pn T' pp])
    then obtain y2 where y2: "y = ?p @ y2"
      by (auto simp: prefix_def)
    then have eq: "y @ w @ T = ''tmp'' @ wd @ ''.py'' @ (y2 @ w @ T)"
      by simp
    then have "match_tmp (y @ w @ T) \<noteq> None"
      using wd(1,2) match_tmp_pat by blast
    then have "prefix ''tmpX.py'' (y @ w @ T)"
      using old by (simp add: tmp_ok_def)
    then have x: "prefix ''X.py'' (wd @ ''.py'' @ (y2 @ w @ T))"
      by (simp add: eq)
    obtain c1 wd' where c1: "wd = c1 # wd'"
      using wd(1) by (cases wd) auto
    have "wd' = []"
    proof (cases wd')
      case Nil
      then show ?thesis .
    next
      case (Cons c2 wd'')
      then have "c2 = CHR ''.''"
        using x c1 by simp
      moreover have "is_word c2"
        using wd(2) c1 Cons by simp
      ultimately show ?thesis
        using word_chars(5) by simp
    qed
    then have "wd = ''X''"
      using x c1 by simp
    then show "prefix ''tmpX.py'' (y @ T')"
      using y2 by simp
  qed
next
  fix J
  show "tmp_ok (newline # J)"
    by (simp add: tmp_ok_def match_tmp_def newline_def)
qed

lemma post_file_ok:
  assumes "everywhere file_ok (join_lines ls)"
  shows "everywhere file_ok (join_lines (core_error ls))"
proof (rule everywhere_core_error [OF _ _ assms])
  fix y w T T'
  assume w: "\<forall>c \<in> set w. is_space c" and T: "T = [] \<or> hd T = newline"
    and T': "T' = [] \<or> hd T' = newline" and sub: "set T' \<subseteq> insert newline (set T)"
    and old: "file_ok (y @ w @ T)"
  show "file_ok (y @ T')"
    unfolding file_ok_def
  proof
    assume pp: "prefix (''File '' @ [dquote]) (y @ T')"
    have pn: "\<forall>c \<in> set (''File '' @ [dquote]). \<not> c = newline"
      by (simp add: newline_def dquote_def)
    have "prefix (''File '' @ [dquote]) y"
      by (rule prefix_stop [where S = "\<lambda>c. c = newline", OF pn T' pp])
    then obtain y2 where y2: "y = (''File '' @ [dquote]) @ y2"
      by (auto simp: prefix_def)
    then have "prefix (''File '' @ [dquote]) (y @ w @ T)"
      by simp
    then consider "prefix (''File '' @ [dquote, CHR ''X'', dquote]) (y @ w @ T)"
      | "dquote \<notin> set (drop 6 (y @ w @ T))"
      using old by (auto simp: file_ok_def)
    then show "prefix (''File '' @ [dquote, CHR ''X'', dquote]) (y @ T') \<or> dquote \<notin> set (drop 6 (y @ T'))"
    proof cases
      case 1
      then have p: "prefix [CHR ''X'', dquote] (y2 @ (w @ T))"
        using y2 by simp
      have R: "w @ T = [] \<or> is_space (hd (w @ T))"
        using w T by (cases w) (auto simp: space_chars)
      have xn: "\<forall>c \<in> set [CHR ''X'', dquote]. \<not> is_space c"
        by (simp add: space_chars)
      have "prefix [CHR ''X'', dquote] y2"
        by (rule prefix_stop [where S = is_space, OF xn R p])
      then show ?thesis
        using y2 by simp
    next
      case 2
      then have "dquote \<notin> set y2" and "dquote \<notin> set T"
        using y2 by auto
      moreover have "dquote \<noteq> newline"
        by (simp add: dquote_def newline_def)
      ultimately have "dquote \<notin> set (y2 @ T')"
        using sub by auto
      then show ?thesis
        using y2 by simp
    qed
  qed
next
  fix J
  show "file_ok (newline # J)"
    by (simp add: file_ok_def newline_def)
qed

text \<open>
  C8: the error normalizer is idempotent. In a normalized text no match of the first
  pattern is left, every match of the second and of the third pattern is its own
  replacement, and every line is a kept line without surrounding white space: the three
  substitutions and the loop over the lines leave it as it is.
\<close>

theorem normalize_error_idempotent:
  "normalize_error (normalize_error x) = normalize_error x"
proof (cases "x = []")
  case True
  then show ?thesis by (simp add: normalize_error_def)
next
  case False
  let ?t = "sub_tmp (sub_file (sub_line x))"
  let ?ls = "split_lines ?t"
  let ?s = "join_lines (core_error ?ls)"
  have n: "normalize_error x = ?s"
    using False by (simp add: normalize_error_def)
  have j: "join_lines ?ls = ?t"
    by (rule join_split)
  have "everywhere (\<lambda>x. match_line x = None) ?t"
    by (intro sub_tmp_no_line sub_file_no_line sub_line_no_line)
  then have "everywhere (\<lambda>x. match_line x = None) ?s"
    using j post_no_line [of ?ls] by simp
  then have 1: "sub_line ?s = ?s"
    by (rule sub_line_fix)
  have "everywhere file_ok ?t"
    by (intro sub_tmp_file_ok sub_file_ok)
  then have "everywhere file_ok ?s"
    using j post_file_ok [of ?ls] by simp
  then have 2: "sub_file ?s = ?s"
    by (rule sub_file_fix)
  have "everywhere tmp_ok ?t"
    by (rule sub_tmp_ok)
  then have "everywhere tmp_ok ?s"
    using j post_tmp_ok [of ?ls] by simp
  then have 3: "sub_tmp ?s = ?s"
    by (rule sub_tmp_fix)
  have lines: "strip l' = l' \<and> l' \<noteq> [] \<and> newline \<notin> set l'" if mem: "l' \<in> set (core_error ?ls)" for l'
  proof -
    obtain l where l: "l \<in> set ?ls" "l' = strip l" "strip l \<noteq> []"
      using core_error_lines [OF mem] by blast
    have "newline \<notin> set l"
      using l(1) by (rule split_lines_no_newline)
    then have "newline \<notin> set l'"
      using l(2) set_strip [of l] by blast
    then show ?thesis
      using l(2,3) strip_strip by simp
  qed
  show ?thesis
  proof (cases "core_error ?ls = []")
    case True
    then show ?thesis
      using n by (simp add: normalize_error_def)
  next
    case ne: False
    have 4: "split_lines ?s = core_error ?ls"
      using ne lines by (intro split_join) auto
    have 5: "core_error (core_error ?ls) = core_error ?ls"
      using lines by (intro core_error_fix) auto
    have "normalize_error ?s = (if ?s = [] then [] else join_lines (core_error (split_lines ?s)))"
      unfolding normalize_error_def by (simp only: 1 2 3)
    then have "normalize_error ?s = ?s"
      by (simp only: 4 5 if_cancel split: if_splits) auto
    then show ?thesis
      using n by simp
  qed
qed

section \<open>Properties of the retry orchestrator\<close>

lemma history_get_upd:
  "history_get (h(k \<mapsto> v)) k' = (if k' = k then v else history_get h k')"
  by (simp add: history_get_def)

lemma run_tests_history:
  "run_tests env rnd code test_cases idx st = Inr st' \<Longrightarrow>
     (current_attempt_errors st' = current_attempt_errors st \<and> error_history st' = error_history st) \<or>
     (\<exists>sig. current_attempt_errors st' = current_attempt_errors st @ [sig] \<and>
            error_history st' = (error_history st)(sig \<mapsto> history_get (error_history st) sig + 1))"
proof (induction env rnd code test_cases idx st rule: run_tests.induct)
  case (1 env rnd code idx st)
  then show ?case by simp
next
  case (2 env rnd code input_data expected_output rest idx st)
  obtain r tr where rc: "run_code env code input_data (calls st) = (r, tr)"
    by (cases "run_code env code input_data (calls st)") auto
  show ?case
  proof (cases r)
    case (Inl e)
    with 2 rc show ?thesis by simp
  next
    case (Inr v)
    obtain out err where v: "v = (out, err)" by (cases v) auto
    show ?thesis
    proof (cases "err \<noteq> []")
      case True
      with 2 rc Inr v have
        "current_attempt_errors st' = current_attempt_errors st @ [normalize_error err] \<and>
         error_history st' =
           (error_history st)(normalize_error err \<mapsto> history_get (error_history st) (normalize_error err) + 1)"
        by (auto simp: Let_def history_get_def domIff split: option.splits)
      then show ?thesis by blast
    next
      case False
      note noerr = this
      show ?thesis
      proof (cases "evaluate_output rnd out expected_output")
        case True
        with 2 rc Inr v noerr show ?thesis by simp
      next
        case False
        with 2 rc Inr v noerr show ?thesis by auto
      qed
    qed
  qed
qed

lemma run_tests_monotone:
  assumes "run_tests env rnd code test_cases idx st = Inr st'"
  shows "(\<forall>sig. history_get (error_history st) sig \<le> history_get (error_history st') sig) \<and>
         dom (error_history st) \<subseteq> dom (error_history st')"
  using run_tests_history [OF assms] by (auto simp: history_get_upd)

lemma attempts_monotone:
  "attempts env rnd task test_cases t0 as st = Inr (t, st') \<Longrightarrow>
     (\<forall>sig. history_get (error_history st) sig \<le> history_get (error_history st') sig) \<and>
     dom (error_history st) \<subseteq> dom (error_history st')"
proof (induction env rnd task test_cases t0 as st rule: attempts.induct)
  case (1 env rnd task test_cases t0 st)
  then show ?case by simp
next
  case (2 env rnd task test_cases t0 attempt rest st)
  let ?st1 = "st\<lparr>calls := calls st @ [TimeTime]\<rparr>"
  show ?case
  proof (cases "time_time env (calls st) - t0 > MAX_EXECUTION_TIME")
    case True
    with 2 show ?thesis by (auto simp: Let_def)
  next
    case False
    note time = this
    obtain code st2 where nc: "next_code env task attempt ?st1 = (code, st2)"
      by (cases "next_code env task attempt ?st1") auto
    have eh2: "error_history st2 = error_history st"
      using nc by (auto simp: next_code_def split: if_splits)
    let ?st3 = "st2\<lparr>all_passed := True, feedback_summary := [], current_attempt_errors := []\<rparr>"
    show ?thesis
    proof (cases "run_tests env rnd code test_cases 1 ?st3")
      case (Inl e)
      with 2 time nc show ?thesis by (simp add: Let_def)
    next
      case (Inr st4)
      have m: "(\<forall>sig. history_get (error_history st) sig \<le> history_get (error_history st4) sig) \<and>
               dom (error_history st) \<subseteq> dom (error_history st4)"
        using run_tests_monotone [OF Inr] eh2 by simp
      show ?thesis
      proof (cases "current_attempt_errors st4 \<noteq> [] \<and> repeated_errors st4 \<noteq> []")
        case True
        with 2 time nc Inr m show ?thesis by (simp add: Let_def)
      next
        case False
        note nostuck = this
        show ?thesis
        proof (cases "all_passed st4")
          case True
          have "st' = st4\<lparr>final_code := Some code\<rparr>"
            using 2(2) time nc Inr nostuck True by (auto simp: Let_def split: if_splits)
          with m show ?thesis by simp
        next
          case False
          have rec: "attempts env rnd task test_cases t0 rest st4 = Inr (t, st')"
            using 2(2) time nc Inr nostuck False by (auto simp: Let_def split: if_splits)
          have "(\<forall>sig. history_get (error_history st4) sig \<le> history_get (error_history st') sig) \<and>
                dom (error_history st4) \<subseteq> dom (error_history st')"
            using "2.IH" [OF refl refl time refl nc [symmetric] refl Inr nostuck False rec] .
          with m show ?thesis by (meson order_trans subset_trans)
        qed
      qed
    qed
  qed
qed

lemma run_tests_Inr: "\<exists>st'. run_tests env rnd code test_cases idx st = Inr st'"
proof (induction env rnd code test_cases idx st rule: run_tests.induct)
  case (1 env rnd code idx st)
  then show ?case by simp
next
  case (2 env rnd code input_data expected_output rest idx st)
  obtain out err where "fst (run_code env code input_data (calls st)) = Inr (out, err)"
    using run_code_Inr by blast
  then obtain tr where rc: "run_code env code input_data (calls st) = (Inr (out, err), tr)"
    by (cases "run_code env code input_data (calls st)") auto
  show ?case
    using rc "2.IH" [OF rc [symmetric] refl refl] by (auto simp: Let_def)
qed

text \<open>
  C5: the count of every error signature only grows, over the test cases of an attempt and
  over the attempts of a session, and no entry is removed; an attempt changes the history
  by at most one increment of one signature, which it appends to its own list of errors;
  and after a test case whose execution gives a standard error that is not empty, the
  remaining test cases are not run.
\<close>

theorem error_history_invariant:
  "(run_tests env rnd code test_cases idx st = Inr st' \<longrightarrow>
      (\<forall>sig. history_get (error_history st) sig \<le> history_get (error_history st') sig) \<and>
      dom (error_history st) \<subseteq> dom (error_history st') \<and>
      ((current_attempt_errors st' = current_attempt_errors st \<and> error_history st' = error_history st) \<or>
       (\<exists>sig. current_attempt_errors st' = current_attempt_errors st @ [sig] \<and>
              error_history st' = (error_history st)(sig \<mapsto> history_get (error_history st) sig + 1)))) \<and>
   (fst (run_code env code input_data (calls st)) = Inr (out, err) \<and> err \<noteq> [] \<longrightarrow>
      run_tests env rnd code ((input_data, expected_output) # rest) idx st =
      run_tests env rnd code [(input_data, expected_output)] idx st) \<and>
   (attempts env rnd task_description test_cases start_time numbers st = Inr (t, st'') \<longrightarrow>
      (\<forall>sig. history_get (error_history st) sig \<le> history_get (error_history st'') sig) \<and>
      dom (error_history st) \<subseteq> dom (error_history st''))"
proof -
  have ff: "run_tests env rnd code ((input_data, expected_output) # rest) idx st =
      run_tests env rnd code [(input_data, expected_output)] idx st"
    if "fst (run_code env code input_data (calls st)) = Inr (out, err)" "err \<noteq> []"
    using that by (cases "run_code env code input_data (calls st)") (simp add: Let_def)
  have m: "(\<forall>sig. history_get (error_history st) sig \<le> history_get (error_history st') sig) \<and>
      dom (error_history st) \<subseteq> dom (error_history st')"
    if "run_tests env rnd code test_cases idx st = Inr st'"
    using run_tests_monotone [OF that] .
  have h: "(current_attempt_errors st' = current_attempt_errors st \<and> error_history st' = error_history st) \<or>
       (\<exists>sig. current_attempt_errors st' = current_attempt_errors st @ [sig] \<and>
              error_history st' = (error_history st)(sig \<mapsto> history_get (error_history st) sig + 1))"
    if "run_tests env rnd code test_cases idx st = Inr st'"
    using run_tests_history [OF that] .
  have a: "(\<forall>sig. history_get (error_history st) sig \<le> history_get (error_history st'') sig) \<and>
      dom (error_history st) \<subseteq> dom (error_history st'')"
    if "attempts env rnd task_description test_cases start_time numbers st = Inr (t, st'')"
    using attempts_monotone [OF that] .
  from m h a ff show ?thesis by presburger
qed

theorem error_history_invariant_witness:
  "case run_tests env_boom Finite ''import foo'' [(''1'', ''2''), (''3'', ''4'')] 1 initial_state of
     Inl e \<Rightarrow> False
   | Inr st' \<Rightarrow>
       history_get (error_history initial_state) ''line X: boom'' \<le> history_get (error_history st') ''line X: boom'' \<and>
       run_tests env_boom Finite ''import foo'' [(''1'', ''2'')] 1 initial_state = Inr st'"
proof -
  obtain st' where r: "run_tests env_boom Finite ''import foo'' [(''1'', ''2''), (''3'', ''4'')] 1 initial_state = Inr st'"
    using run_tests_Inr by blast
  have rc: "fst (run_code env_boom ''import foo'' ''1'' (calls initial_state)) = Inr ([], ''line 5: boom'')"
    by code_simp
  have "history_get (error_history initial_state) ''line X: boom'' \<le> history_get (error_history st') ''line X: boom''"
    using error_history_invariant [where env = env_boom and rnd = Finite and code = "''import foo''"
        and test_cases = "[(''1'', ''2''), (''3'', ''4'')]" and idx = 1 and st = initial_state and st' = st'] r
    by blast
  moreover have "run_tests env_boom Finite ''import foo'' [(''1'', ''2'')] 1 initial_state = Inr st'"
    using error_history_invariant [where env = env_boom and rnd = Finite and code = "''import foo''"
        and idx = 1 and st = initial_state and input_data = "''1''" and expected_output = "''2''"
        and out = "[]" and err = "''line 5: boom''" and rest = "[(''3'', ''4'')]"] rc r
    by simp
  ultimately show ?thesis using r by simp
qed

text \<open>
  C2: when the signature that an attempt records has reached \<open>MAX_DUPLICATE_ERRORS\<close>
  occurrences in the error history, the loop ends as \<open>Stuck\<close> with the state the attempt
  left: the calls of the session end with the last test run of that attempt, so neither
  collaborator is called again.
\<close>

theorem stuck_after_repeated_error:
  assumes "\<not> time_time env (calls st) - start_time > MAX_EXECUTION_TIME"
      and "next_code env task_description attempt (st\<lparr>calls := calls st @ [TimeTime]\<rparr>) = (code, st2)"
      and "run_tests env rnd code test_cases 1
             (st2\<lparr>all_passed := True, feedback_summary := [], current_attempt_errors := []\<rparr>) = Inr st4"
      and "sig \<in> set (current_attempt_errors st4)"
      and "history_get (error_history st4) sig \<ge> MAX_DUPLICATE_ERRORS"
    shows "attempts env rnd task_description test_cases start_time (attempt # rest) st = Inr (Stuck, st4)"
proof -
  have "sig \<in> set (repeated_errors st4)"
    using assms(4,5) by (simp add: repeated_errors_def)
  then have "current_attempt_errors st4 \<noteq> [] \<and> repeated_errors st4 \<noteq> []"
    using assms(4) by auto
  then show ?thesis
    using assms(1,2,3) by (simp add: Let_def)
qed
theorem stuck_after_repeated_error_witness:
  "\<exists>st4. attempts env_boom Finite ''add'' [(''1'', ''2'')] 0 [2, 3] state_once = Inr (Stuck, st4) \<and>
         filter (\<lambda>ev. case ev of DebugCode a b c \<Rightarrow> True | GenerateCode a b \<Rightarrow> True | _ \<Rightarrow> False) (calls st4)
           = [DebugCode ''add'' [] ''python'']"
proof -
  let ?st2 = "state_once\<lparr>calls := calls state_once @ [TimeTime, DebugCode ''add'' [] ''python'']\<rparr>"
  let ?st3 = "?st2\<lparr>all_passed := True, feedback_summary := [], current_attempt_errors := []\<rparr>"
  obtain st4 where r: "run_tests env_boom Finite ''import foo'' [(''1'', ''2'')] 1 ?st3 = Inr st4"
    using run_tests_Inr by blast
  have 1: "\<not> time_time env_boom (calls state_once) - 0 > MAX_EXECUTION_TIME"
    by (simp add: env_boom_def example_env_def state_once_def initial_state_def MAX_EXECUTION_TIME_def)
  have 2: "next_code env_boom ''add'' 2 (state_once\<lparr>calls := calls state_once @ [TimeTime]\<rparr>) = (''import foo'', ?st2)"
    by (simp add: next_code_def env_boom_def example_env_def state_once_def initial_state_def)
  have ev: "case run_tests env_boom Finite ''import foo'' [(''1'', ''2'')] 1 ?st3 of
      Inl e \<Rightarrow> False
    | Inr s \<Rightarrow> ''line X: boom'' \<in> set (current_attempt_errors s) \<and>
        history_get (error_history s) ''line X: boom'' \<ge> MAX_DUPLICATE_ERRORS \<and>
        filter (\<lambda>ev. case ev of DebugCode a b c \<Rightarrow> True | GenerateCode a b \<Rightarrow> True | _ \<Rightarrow> False) (calls s)
           = [DebugCode ''add'' [] ''python'']"
    by code_simp
  have 4: "''line X: boom'' \<in> set (current_attempt_errors st4)"
    and 5: "history_get (error_history st4) ''line X: boom'' \<ge> MAX_DUPLICATE_ERRORS"
    and 6: "filter (\<lambda>ev. case ev of DebugCode a b c \<Rightarrow> True | GenerateCode a b \<Rightarrow> True | _ \<Rightarrow> False) (calls st4)
           = [DebugCode ''add'' [] ''python'']"
    using ev r by simp_all
  show ?thesis
    using stuck_after_repeated_error [OF 1 2 r 4 5, of "[3]"] 6 by blast
qed

text \<open>The test loop appends the feedback of its test runs to the feedback it starts with.\<close>

lemma run_tests_feedback:
  "run_tests env rnd code test_cases idx st = Inr st' \<Longrightarrow>
     feedback_summary st' = feedback_summary st @ attempt_feedback env rnd code test_cases idx (calls st)"
proof (induction env rnd code test_cases idx st rule: run_tests.induct)
  case (1 env rnd code idx st)
  then show ?case by simp
next
  case (2 env rnd code input_data expected_output rest idx st)
  obtain r tr where rc: "run_code env code input_data (calls st) = (r, tr)"
    by (cases "run_code env code input_data (calls st)") auto
  show ?case
  proof (cases r)
    case (Inl e)
    with 2 rc show ?thesis by simp
  next
    case (Inr v)
    obtain out err where v: "v = (out, err)" by (cases v) auto
    show ?thesis
    proof (cases "err \<noteq> [] \<or> \<not> evaluate_output rnd out expected_output")
      case True
      with 2(2) rc Inr v show ?thesis by (auto simp: Let_def)
    next
      case False
      then have rec: "run_tests env rnd code rest (idx + 1) (st\<lparr>calls := tr\<rparr>) = Inr st'"
        using 2(2) rc Inr v by simp
      show ?thesis
        using "2.IH" [OF rc [symmetric, unfolded Inr v] refl refl _ _ rec] False rc Inr v by simp
    qed
  qed
qed

text \<open>The index of the first test case, as the f-strings format it.\<close>

lemma str_nat_1: "str_nat 1 = ''1''" "str_nat (Suc 0) = ''1''"
  by code_simp+

text \<open>
  C4: the feedback that the debugger gets in an attempt after the first is the feedback
  of the attempt before it, built from the test results of that attempt alone: the
  feedback of still earlier attempts is not part of it. When the first test case fails, it
  is the line \<open>Test Case 1: Execution Error:\<close> with the error on the next line, or the line
  \<open>Test Case 1: Expected '...' but got '...'\<close>. The error history is what goes on from
  attempt to attempt.
\<close>

theorem debugger_feedback:
  assumes "\<not> time_time env (calls st) - start_time > MAX_EXECUTION_TIME"
      and "next_code env task_description a (st\<lparr>calls := calls st @ [TimeTime]\<rparr>) = (code, st2)"
      and "run_tests env rnd code test_cases 1
             (st2\<lparr>all_passed := True, feedback_summary := [], current_attempt_errors := []\<rparr>) = Inr st4"
      and "\<not> (current_attempt_errors st4 \<noteq> [] \<and> repeated_errors st4 \<noteq> [])"
      and "\<not> all_passed st4"
      and "b \<noteq> 1"
    shows "feedback_summary st4 = attempt_feedback env rnd code test_cases 1 (calls st2) \<and>
           attempts env rnd task_description test_cases start_time (a # b # rest) st =
             attempts env rnd task_description test_cases start_time (b # rest) st4 \<and>
           next_code env task_description b (st4\<lparr>calls := calls st4 @ [TimeTime]\<rparr>) =
             (debug_code env (calls st4 @ [TimeTime]) task_description
                (attempt_feedback env rnd code test_cases 1 (calls st2)) ''python'',
              st4\<lparr>calls := calls st4 @
                 [TimeTime, DebugCode task_description (attempt_feedback env rnd code test_cases 1 (calls st2)) ''python'']\<rparr>) \<and>
           error_history (snd (next_code env task_description b (st4\<lparr>calls := calls st4 @ [TimeTime]\<rparr>))) =
             error_history st4 \<and>
           (test_cases = (input_data, expected_output) # others \<and>
            fst (run_code env code input_data (calls st2)) = Inr (out, err) \<and> err \<noteq> [] \<longrightarrow>
              feedback_summary st4 = ''Test Case 1: Execution Error:'' @ [CHR 0x0A] @ err @ [CHR 0x0A]) \<and>
           (test_cases = (input_data, expected_output) # others \<and>
            fst (run_code env code input_data (calls st2)) = Inr (out, []) \<and>
            \<not> evaluate_output rnd out expected_output \<longrightarrow>
              feedback_summary st4 =
                ''Test Case 1: Expected '' @ [CHR 0x27] @ expected_output @ [CHR 0x27] @
                '' but got '' @ [CHR 0x27] @ out @ [CHR 0x27] @ [CHR 0x0A])"
proof -
  have fb: "feedback_summary st4 = attempt_feedback env rnd code test_cases 1 (calls st2)"
    using run_tests_feedback [OF assms(3)] by simp
  have step: "attempts env rnd task_description test_cases start_time (a # b # rest) st =
             attempts env rnd task_description test_cases start_time (b # rest) st4"
    using assms(1-5) by (auto simp: Let_def)
  have e1: "feedback_summary st4 = ''Test Case 1: Execution Error:'' @ [CHR 0x0A] @ err @ [CHR 0x0A]"
    if "test_cases = (input_data, expected_output) # others"
       "fst (run_code env code input_data (calls st2)) = Inr (out, err)" "err \<noteq> []"
    using that fb
    by (cases "run_code env code input_data (calls st2)")
       (simp add: execution_error_feedback_def newline_def str_nat_1 del: str_nat.simps)
  have e2: "feedback_summary st4 =
      ''Test Case 1: Expected '' @ [CHR 0x27] @ expected_output @ [CHR 0x27] @
      '' but got '' @ [CHR 0x27] @ out @ [CHR 0x27] @ [CHR 0x0A]"
    if "test_cases = (input_data, expected_output) # others"
       "fst (run_code env code input_data (calls st2)) = Inr (out, [])"
       "\<not> evaluate_output rnd out expected_output"
    using that fb
    by (cases "run_code env code input_data (calls st2)")
       (simp add: mismatch_feedback_def newline_def str_nat_1 del: str_nat.simps)
  show ?thesis
    using fb step e1 e2 assms(6) by (simp add: next_code_def)
qed

theorem debugger_feedback_witness:
  "\<exists>st6. attempts env_revising Finite ''add'' [(''1'', ''2'')] 0 [1, 2, 3] initial_state = Inr (Exhausted, st6) \<and>
         filter is_debug (calls st6) =
           [DebugCode ''add''
              (''Test Case 1: Execution Error:'' @ [CHR 0x0A] @ ''ZeroDivisionError: division by zero'' @ [CHR 0x0A])
              ''python'',
            DebugCode ''add''
              (''Test Case 1: Expected '' @ [CHR 0x27] @ ''2'' @ [CHR 0x27] @ '' but got '' @ [CHR 0x27] @ ''7'' @
               [CHR 0x27] @ [CHR 0x0A])
              ''python''] \<and>
         feedback_summary st6 =
           ''Test Case 1: Expected '' @ [CHR 0x27] @ ''2'' @ [CHR 0x27] @ '' but got '' @ [CHR 0x27] @ ''7'' @
           [CHR 0x27] @ [CHR 0x0A] \<and>
         error_history st6 = [''ZeroDivisionError: division by zero'' \<mapsto> 1]"
proof -
  let ?err = "''ZeroDivisionError: division by zero''"
  let ?fb1 = "''Test Case 1: Execution Error:'' @ [CHR 0x0A] @ ?err @ [CHR 0x0A]"
  let ?fb2 = "''Test Case 1: Expected '' @ [CHR 0x27] @ ''2'' @ [CHR 0x27] @ '' but got '' @ [CHR 0x27] @ ''7'' @
           [CHR 0x27] @ [CHR 0x0A]"
  let ?run = "\<lambda>code. [NamedTemporaryFile code, SubprocessRun [''python'', ''/tmp/tmpab12.py''] (Some ''1'') 10,
      PathExists ''/tmp/tmpab12.py'', OsRemove ''/tmp/tmpab12.py'']"
  have s1: "strip (?err @ [newline]) = ?err"
    by code_simp
  have s2: "\<not> sublist ''ModuleNotFoundError'' ?err"
    by code_simp
  have s3: "strip (''7'' @ [newline]) = ''7''"
    by code_simp
  have s4: "strip [] = []"
    by (simp add: strip_def)
  have s5: "normalize_error ?err = ?err"
    by code_simp
  have s6: "\<not> evaluate_output Finite ''7'' ''2''"
    by (simp add: evaluate_output_def py_float_eval)
  have rc1: "run_code env_revising ''print(1/0)'' ''1'' tr = (Inr ([], ?err), tr @ ?run ''print(1/0)'')" for tr
    using s1 s2 s4
    by (simp add: run_code_def run_code_try_def run_code_finally_def env_revising_def example_env_def
        written_def execution_timeout_def Let_def)
  have rc2: "run_code env_revising ''print(7)'' ''1'' tr = (Inr (''7'', []), tr @ ?run ''print(7)'')" for tr
    using s3 s4
    by (simp add: run_code_def run_code_try_def run_code_finally_def env_revising_def example_env_def
        written_def execution_timeout_def Let_def)
  have gen: "generate_code env_revising tr task lang = ''print(1/0)''" for tr task lang
    by (simp add: env_revising_def example_env_def)
  have dbg: "debug_code env_revising tr task fbk lang = ''print(7)''" for tr task fbk lang
    by (simp add: env_revising_def example_env_def)
  have clock: "time_time env_revising tr = of_nat (length tr)" for tr
    by (simp add: env_revising_def example_env_def)
  let ?c2 = "[TimeTime, TimeTime, GenerateCode ''add'' ''python'']"
  let ?a2 = "\<lparr>final_code = None, feedback_summary = [], error_history = Map.empty,
      all_passed = True, current_attempt_errors = [], calls = ?c2\<rparr>"
  let ?c4 = "?c2 @ ?run ''print(1/0)''"
  let ?a4 = "\<lparr>final_code = None, feedback_summary = ?fb1, error_history = [?err \<mapsto> 1],
      all_passed = False, current_attempt_errors = [?err], calls = ?c4\<rparr>"
  let ?d2 = "?c4 @ [TimeTime, DebugCode ''add'' ?fb1 ''python'']"
  let ?b2 = "\<lparr>final_code = None, feedback_summary = ?fb1, error_history = [?err \<mapsto> 1],
      all_passed = False, current_attempt_errors = [?err], calls = ?d2\<rparr>"
  let ?d4 = "?d2 @ ?run ''print(7)''"
  let ?b4 = "\<lparr>final_code = None, feedback_summary = ?fb2, error_history = [?err \<mapsto> 1],
      all_passed = False, current_attempt_errors = [], calls = ?d4\<rparr>"
  let ?e4 = "?d4 @ [TimeTime, DebugCode ''add'' ?fb2 ''python''] @ ?run ''print(7)''"
  let ?c6 = "\<lparr>final_code = None, feedback_summary = ?fb2, error_history = [?err \<mapsto> 1],
      all_passed = False, current_attempt_errors = [], calls = ?e4\<rparr>"
  have a1: "\<not> time_time env_revising (calls initial_state) - 0 > MAX_EXECUTION_TIME"
    by (simp add: clock initial_state_def MAX_EXECUTION_TIME_def)
  have a2: "next_code env_revising ''add'' 1 (initial_state\<lparr>calls := calls initial_state @ [TimeTime]\<rparr>) =
      (''print(1/0)'', ?a2)"
    by (simp add: next_code_def gen initial_state_def)
  have a3: "run_tests env_revising Finite ''print(1/0)'' [(''1'', ''2'')] 1
      (?a2\<lparr>all_passed := True, feedback_summary := [], current_attempt_errors := []\<rparr>) = Inr ?a4"
    by (simp add: rc1 s5 execution_error_feedback_def newline_def Let_def str_nat_1 del: str_nat.simps)
  have a4: "\<not> (current_attempt_errors ?a4 \<noteq> [] \<and> repeated_errors ?a4 \<noteq> [])"
    by (simp add: repeated_errors_def history_get_def MAX_DUPLICATE_ERRORS_def)
  have a5: "\<not> all_passed ?a4"
    by simp
  have b1: "\<not> time_time env_revising (calls ?a4) - 0 > MAX_EXECUTION_TIME"
    by (simp add: clock MAX_EXECUTION_TIME_def)
  have b2: "next_code env_revising ''add'' 2 (?a4\<lparr>calls := calls ?a4 @ [TimeTime]\<rparr>) = (''print(7)'', ?b2)"
    by (simp add: next_code_def dbg)
  have b3: "run_tests env_revising Finite ''print(7)'' [(''1'', ''2'')] 1
      (?b2\<lparr>all_passed := True, feedback_summary := [], current_attempt_errors := []\<rparr>) = Inr ?b4"
    by (simp add: rc2 s6 mismatch_feedback_def newline_def Let_def str_nat_1 del: str_nat.simps)
  have b4: "\<not> (current_attempt_errors ?b4 \<noteq> [] \<and> repeated_errors ?b4 \<noteq> [])"
    by simp
  have b5: "\<not> all_passed ?b4"
    by simp
  have n2: "(2::nat) \<noteq> 1" and n3: "(3::nat) \<noteq> 1"
    by simp_all
  have first: "attempts env_revising Finite ''add'' [(''1'', ''2'')] 0 [1, 2, 3] initial_state =
      attempts env_revising Finite ''add'' [(''1'', ''2'')] 0 [2, 3] ?a4"
    using debugger_feedback [OF a1 a2 a3 a4 a5 n2, of "[3]"] by (rule conjunct1 [OF conjunct2])
  have second: "attempts env_revising Finite ''add'' [(''1'', ''2'')] 0 [2, 3] ?a4 =
      attempts env_revising Finite ''add'' [(''1'', ''2'')] 0 [3] ?b4"
    using debugger_feedback [OF b1 b2 b3 b4 b5 n3, of "[]"] by (rule conjunct1 [OF conjunct2])
  have third: "attempts env_revising Finite ''add'' [(''1'', ''2'')] 0 [3] ?b4 = Inr (Exhausted, ?c6)"
    by (simp add: clock MAX_EXECUTION_TIME_def Let_def next_code_def dbg rc2 s6 mismatch_feedback_def
        newline_def str_nat_1 del: str_nat.simps)
  have "attempts env_revising Finite ''add'' [(''1'', ''2'')] 0 [1, 2, 3] initial_state = Inr (Exhausted, ?c6)"
    using first second third by (simp only:)
  moreover have "filter is_debug (calls ?c6) = [DebugCode ''add'' ?fb1 ''python'', DebugCode ''add'' ?fb2 ''python'']"
    by simp
  ultimately show ?thesis
    by (intro exI [of _ ?c6]) simp
qed


end
